theory Spec2Isabelle
  imports Main "HOL-Library.Sublist"
begin

section \<open>Data model\<close>

text \<open>
  The metadata records of the generator, as the code reads them. A field's type tag is
  kept as the raw string of the metadata, because both mappers have a branch for a tag
  that none of their cases handles. Options are tag-dependent in the source; here every
  option the code reads is optional, and reading through a missing \<open>options\<close>
  object is the TypeError JavaScript raises.
\<close>

record Choice =
  choice_name :: string

record FieldResult =
  result_type :: "string option"

record FieldOptions =
  precision :: "int option"
  choices :: "Choice list option"
  linkedTableId :: "string option"
  result :: "FieldResult option"

record FieldMetadata =
  field_name :: string
  field_type :: string
  options :: "FieldOptions option"

record TableMetadata =
  table_id :: string
  table_name :: string
  table_fields :: "FieldMetadata list"

record BaseMetadata =
  base_id :: string
  base_name :: string

record TsOptions =
  useAirtableLibraryTypes :: bool

text \<open>The two flags \<open>generateTSDefinitions\<close> reads: \<open>--controllers\<close> and \<open>--id\<close>.\<close>

record GenFlags =
  controllers :: bool
  genIds :: bool

datatype error =
  UnrecognizedFieldType string
  | TypeError
  | TableSelectionMismatch string

text \<open>
  What the two source files import and this development does not have: \<open>pascalCase\<close>
  of the change-case library, the printed entry of the table
  \<open>CellFormatTypescriptDefinitions\<close> for a tag (\<open>None\<close> where the table has no
  entry), and the four helpers \<open>getFieldEnumName\<close>, \<open>hasAttachmentField\<close>,
  \<open>hasCollaboratorField\<close> and \<open>isReadonlyField\<close>. They are parameters of every
  function below.
\<close>

record Deps =
  pascalCase :: "string \<Rightarrow> string"
  printCellFormat :: "string \<Rightarrow> string option"
  getFieldEnumName :: "TableMetadata \<Rightarrow> FieldMetadata \<Rightarrow> string"
  hasAttachmentField :: "FieldMetadata list \<Rightarrow> bool"
  hasCollaboratorField :: "FieldMetadata list \<Rightarrow> bool"
  isReadonlyField :: "FieldMetadata \<Rightarrow> bool"

section \<open>Strings\<close>

definition quoted :: "string \<Rightarrow> string" where
  "quoted s = [CHR 0x27] @ s @ [CHR 0x27]"

text \<open>\<open>Array.prototype.join\<close> on strings.\<close>

fun join :: "string \<Rightarrow> string list \<Rightarrow> string" where
  "join sep [] = []"
| "join sep [x] = x"
| "join sep (x # y # ys) = x @ sep @ join sep (y # ys)"

text \<open>A loop whose body may throw: the first error ends it.\<close>

fun mapE :: "('a \<Rightarrow> error + 'b) \<Rightarrow> 'a list \<Rightarrow> error + 'b list" where
  "mapE g [] = Inr []"
| "mapE g (x # xs) =
     (case g x of
        Inl e \<Rightarrow> Inl e
      | Inr y \<Rightarrow> (case mapE g xs of Inl e \<Rightarrow> Inl e | Inr ys \<Rightarrow> Inr (y # ys)))"

section \<open>The field mappers\<close>

text \<open>The tags the \<open>switch\<close> of both mappers has a case for.\<close>

definition FieldType :: "string list" where
  "FieldType =
     [''aiText'', ''autoNumber'', ''barcode'', ''button'', ''checkbox'', ''count'',
      ''createdBy'', ''createdTime'', ''currency'', ''date'', ''dateTime'', ''duration'',
      ''email'', ''externalSyncSource'', ''formula'', ''lastModifiedBy'',
      ''lastModifiedTime'', ''multilineText'', ''multipleAttachments'',
      ''multipleCollaborators'', ''multipleLookupValues'', ''multipleRecordLinks'',
      ''multipleSelects'', ''number'', ''percent'', ''phoneNumber'', ''rating'',
      ''richText'', ''rollup'', ''singleCollaborator'', ''singleLineText'',
      ''singleSelect'', ''url'']"

definition unrecognized :: "FieldMetadata \<Rightarrow> string" where
  "unrecognized field =
     ''Unrecognized field type: '' @ field_type field @ '' (on field ''
       @ quoted (field_name field) @ '')''"

definition getZodType :: "Deps \<Rightarrow> TableMetadata \<Rightarrow> FieldMetadata \<Rightarrow> error + string" where
  "getZodType D table field =
     (let ty = field_type field in
      if ty = ''autoNumber'' then Inr ''z.number().int().positive()''
      else if ty = ''barcode'' then Inr ''z.object({ text: z.string(), type: z.string() })''
      else if ty = ''button'' then
        Inr ''z.object({ label: z.string() }).merge(z.record(z.unknown()))''
      else if ty = ''checkbox'' then Inr ''z.boolean()''
      else if ty = ''count'' then Inr ''z.number().int().nonnegative()''
      else if ty \<in> set [''createdBy'', ''lastModifiedBy'', ''singleCollaborator''] then
        Inr ''AirtableCollaboratorSchema''
      else if ty \<in> set [''date'', ''dateTime'', ''createdTime'', ''lastModifiedTime''] then
        Inr ''z.coerce.date()''
      else if ty \<in> set [''number'', ''percent'', ''currency''] then
        (if (case options field of None \<Rightarrow> False | Some opts \<Rightarrow> precision opts = Some 0)
         then Inr ''z.number().int().positive()''
         else Inr ''z.number().positive()'')
      else if ty = ''duration'' then Inr ''z.number()''
      else if ty = ''rating'' then Inr ''z.number().min(0).max(5)''
      else if ty = ''email'' then Inr ''z.string().email()''
      else if ty \<in> set [''aiText'', ''multilineText'', ''phoneNumber'', ''singleLineText'',
                         ''url'', ''richText''] then
        Inr ''z.string()''
      else if ty \<in> set [''rollup'', ''formula''] then Inr ''z.string().or(z.number())''
      else if ty = ''multipleCollaborators'' then Inr ''z.array(AirtableCollaboratorSchema)''
      else if ty = ''multipleAttachments'' then Inr ''z.array(AirtableAttachmentSchema)''
      else if ty = ''multipleLookupValues'' then
        Inr (''z.union([z.array(z.string()), z.array(z.boolean()), z.array(z.number()), ''
             @ ''z.array(z.record(z.unknown()))])'')
      else if ty = ''multipleRecordLinks'' then Inr ''z.array(z.string())''
      else if ty = ''singleSelect'' then Inr (getFieldEnumName D table field)
      else if ty = ''multipleSelects'' then
        Inr (''z.array('' @ getFieldEnumName D table field @ '')'')
      else if ty = ''externalSyncSource'' then Inr ''z.unknown()''
      else Inl (UnrecognizedFieldType (unrecognized field)))"

definition CollaboratorZodTmpl :: string where
  "CollaboratorZodTmpl =
     ''export const AirtableCollaboratorSchema = z.object({\<newline>''
     @ ''  id: z.string(),\<newline>''
     @ ''  email: z.string(),\<newline>''
     @ ''  name: z.string(),\<newline>''
     @ ''})''"

definition AttachmentZodTmpl :: string where
  "AttachmentZodTmpl =
     ''export const AirtableThumbnailSchema = z.object({\<newline>''
     @ ''  url: z.string(),\<newline>''
     @ ''  width: z.number(),\<newline>''
     @ ''  height: z.number(),\<newline>''
     @ ''})''"

text \<open>
  \<open>printNode(CellFormatTypescriptDefinitions[type])\<close>: the printer is applied to
  \<open>undefined\<close> for a tag the table has no entry for, which throws.
\<close>

definition getTsForFieldType :: "Deps \<Rightarrow> string \<Rightarrow> error + string" where
  "getTsForFieldType D ty =
     (case printCellFormat D ty of None \<Rightarrow> Inl TypeError | Some s \<Rightarrow> Inr s)"

text \<open>\<open>field.options.choices.map((choice) => `'${choice.name}'`).join(' | ')\<close>\<close>

definition choiceUnion :: "FieldMetadata \<Rightarrow> error + string" where
  "choiceUnion field =
     (case options field of
        None \<Rightarrow> Inl TypeError
      | Some opts \<Rightarrow>
         (case choices opts of
            None \<Rightarrow> Inl TypeError
          | Some cs \<Rightarrow> Inr (join '' | '' (map (\<lambda>choice. quoted (choice_name choice)) cs))))"

text \<open>\<open>field.options?.result?.type ?? field.type\<close>\<close>

definition derivedType :: "FieldMetadata \<Rightarrow> string" where
  "derivedType field =
     (case options field of
        None \<Rightarrow> field_type field
      | Some opts \<Rightarrow>
         (case result opts of
            None \<Rightarrow> field_type field
          | Some r \<Rightarrow> (case result_type r of None \<Rightarrow> field_type field | Some t \<Rightarrow> t)))"

definition getTsType :: "Deps \<Rightarrow> FieldMetadata \<Rightarrow> TsOptions \<Rightarrow> error + string" where
  "getTsType D field opts =
     (let ty = field_type field in
      if ty \<in> set [''aiText'', ''button''] then
        (if useAirtableLibraryTypes opts then Inr ''string'' else getTsForFieldType D ty)
      else if ty \<in> set [''autoNumber'', ''barcode'', ''checkbox'', ''count'', ''currency'',
                         ''date'', ''dateTime'', ''duration'', ''email'',
                         ''externalSyncSource'', ''multilineText'',
                         ''multipleCollaborators'', ''multipleRecordLinks'', ''number'',
                         ''percent'', ''phoneNumber'', ''rating'', ''richText'',
                         ''singleLineText'', ''url''] then
        getTsForFieldType D ty
      else if ty \<in> set [''createdBy'', ''lastModifiedBy'', ''singleCollaborator''] then
        Inr (if useAirtableLibraryTypes opts then ''Airtable.Collaborator''
             else ''IAirtableCollaborator'')
      else if ty = ''multipleAttachments'' then
        Inr (if useAirtableLibraryTypes opts then ''Airtable.Attachment[]''
             else ''Array<IAirtableAttachment>'')
      else if ty \<in> set [''createdTime'', ''formula'', ''lastModifiedTime'',
                         ''multipleLookupValues'', ''rollup''] then
        getTsForFieldType D (derivedType field)
      else if ty = ''singleSelect'' then choiceUnion field
      else if ty = ''multipleSelects'' then
        (case choiceUnion field of
           Inl e \<Rightarrow> Inl e
         | Inr u \<Rightarrow> Inr (''Array<'' @ u @ ''>''))
      else Inl (UnrecognizedFieldType (unrecognized field)))"

definition getAdditionalTsForAttachments :: string where
  "getAdditionalTsForAttachments =
     ''\<newline>''
     @ ''  export interface IAirtableThumbnail {\<newline>''
     @ ''    url: string\<newline>''
     @ ''    width: number\<newline>''
     @ ''    height: number\<newline>''
     @ ''  }\<newline>''
     @ ''  export interface IAirtableAttachment {\<newline>''
     @ ''    id: string\<newline>''
     @ ''    url: string\<newline>''
     @ ''    filename: string\<newline>''
     @ ''    size: number\<newline>''
     @ ''    type: string\<newline>''
     @ ''    thumbnails?: {\<newline>''
     @ ''      small: IAirtableThumbnail\<newline>''
     @ ''      large: IAirtableThumbnail\<newline>''
     @ ''      full: IAirtableThumbnail\<newline>''
     @ ''    }\<newline>''
     @ ''  }\<newline>''
     @ ''  ''"

definition getAdditionalTsForCollaborators :: string where
  "getAdditionalTsForCollaborators =
     ''\<newline>''
     @ ''  export interface IAirtableCollaborator {\<newline>''
     @ ''    id: string\<newline>''
     @ ''    email: string\<newline>''
     @ ''    name: string\<newline>''
     @ ''  }\<newline>''
     @ ''  ''"

section \<open>The Zod generator\<close>

text \<open>\<open>tables.map((t) => t.fields).flat()\<close>\<close>

definition allFields :: "TableMetadata list \<Rightarrow> FieldMetadata list" where
  "allFields tables = concat (map table_fields tables)"

text \<open>The fragments pushed before the loop over the tables.\<close>

definition zodPreamble :: "Deps \<Rightarrow> TableMetadata list \<Rightarrow> string list" where
  "zodPreamble D tables =
     [''import { z } from '' @ quoted ''zod'', []]
     @ (if hasAttachmentField D (allFields tables) then [AttachmentZodTmpl, []] else [])
     @ (if hasCollaboratorField D (allFields tables) then [CollaboratorZodTmpl, []] else [])"

text \<open>The body of the loop that declares the enums of a table's select fields.\<close>

definition zodEnumDecl :: "Deps \<Rightarrow> TableMetadata \<Rightarrow> FieldMetadata \<Rightarrow> error + string list" where
  "zodEnumDecl D table field =
     (if field_type field = ''singleSelect'' \<or> field_type field = ''multipleSelects'' then
        (case options field of
           None \<Rightarrow> Inl TypeError
         | Some opts \<Rightarrow>
            (case choices opts of
               None \<Rightarrow> Inl TypeError
             | Some cs \<Rightarrow>
                Inr ([''export const '' @ getFieldEnumName D table field @ '' = z.enum(['']
                     @ map (\<lambda>choice. ''  '' @ quoted (choice_name choice) @ '','') cs
                     @ [''])'', []])))
      else Inr [])"

text \<open>The body of the loop over the fields: one entry of the table's object schema.\<close>

definition zodFieldLine :: "Deps \<Rightarrow> TableMetadata \<Rightarrow> FieldMetadata \<Rightarrow> error + string" where
  "zodFieldLine D table field =
     (case getZodType D table field of
        Inl e \<Rightarrow> Inl e
      | Inr fieldType \<Rightarrow>
         Inr (''  '' @ quoted (field_name field) @ '': '' @ fieldType
              @ (if isReadonlyField D field then '','' else ''.optional(),'')))"

text \<open>The body of the loop over the tables.\<close>

definition zodTableBlock :: "Deps \<Rightarrow> TableMetadata \<Rightarrow> error + string list" where
  "zodTableBlock D table =
     (case mapE (zodEnumDecl D table) (table_fields table) of
        Inl e \<Rightarrow> Inl e
      | Inr enums \<Rightarrow>
         (case mapE (zodFieldLine D table) (table_fields table) of
            Inl e \<Rightarrow> Inl e
          | Inr entries \<Rightarrow>
             (let tableSchemaName = pascalCase D (table_name table) @ ''Schema'';
                  tableTypeName = pascalCase D (table_name table)
              in Inr (concat enums
                      @ [''export const '' @ tableSchemaName @ '' = z.object({'']
                      @ entries
                      @ [''})'',
                         ''export type '' @ tableTypeName @ '' = z.infer<typeof ''
                           @ tableSchemaName @ ''>'',
                         []]))))"

text \<open>The array \<open>lines\<close> when the function returns.\<close>

definition zodLines :: "Deps \<Rightarrow> TableMetadata list \<Rightarrow> error + string list" where
  "zodLines D tables =
     (case mapE (zodTableBlock D) tables of
        Inl e \<Rightarrow> Inl e
      | Inr blocks \<Rightarrow> Inr (zodPreamble D tables @ concat blocks))"

definition generateZodSchemas :: "Deps \<Rightarrow> BaseMetadata \<Rightarrow> TableMetadata list \<Rightarrow> error + string" where
  "generateZodSchemas D base tables =
     (case zodLines D tables of
        Inl e \<Rightarrow> Inl e
      | Inr lines \<Rightarrow> Inr (join ''\<newline>'' lines))"

section \<open>The TypeScript generator\<close>

definition tsPreamble :: "Deps \<Rightarrow> GenFlags \<Rightarrow> TableMetadata list \<Rightarrow> string list" where
  "tsPreamble D flags tables =
     (if controllers flags then [''import Airtable from '' @ quoted ''airtable'' @ '';'']
      else (if hasAttachmentField D (allFields tables)
            then [getAdditionalTsForAttachments, []] else [])
           @ (if hasCollaboratorField D (allFields tables)
              then [getAdditionalTsForCollaborators, []] else []))
     @ [''export type AirtableUid = string;'',
        ''export type FieldSetWithId<T extends AirtableUid> = ''
        @ ''Omit<Airtable.FieldSet, keyof Airtable.FieldSet> & { _id?: T };'']"

text \<open>
  \<open>tables.filter((t) => t.id == field.options.linkedTableId)
  .map((t) => pascalCase(t.name) + 'Id').pop()\<close>, replaced by \<open>'AirtableUid'\<close> when
  it is falsy (\<open>undefined\<close> or the empty string).
\<close>

definition linkedTableIdType :: "Deps \<Rightarrow> TableMetadata list \<Rightarrow> FieldOptions \<Rightarrow> string" where
  "linkedTableIdType D tables opts =
     (case rev (map (\<lambda>t. pascalCase D (table_name t) @ ''Id'')
                    (filter (\<lambda>t. Some (table_id t) = linkedTableId opts) tables)) of
        [] \<Rightarrow> ''AirtableUid''
      | n # _ \<Rightarrow> if n = [] then ''AirtableUid'' else n)"

text \<open>
  The type of a field's entry: the mapper's type, replaced for a record link when ids are
  generated. The callback of \<open>filter\<close> reads \<open>field.options.linkedTableId\<close>, so a
  field without options throws as soon as there is a table to test.
\<close>

definition tsFieldType ::
    "Deps \<Rightarrow> GenFlags \<Rightarrow> TableMetadata list \<Rightarrow> FieldMetadata \<Rightarrow> error + string" where
  "tsFieldType D flags tables field =
     (case getTsType D field \<lparr>useAirtableLibraryTypes = controllers flags\<rparr> of
        Inl e \<Rightarrow> Inl e
      | Inr fieldType \<Rightarrow>
         (if genIds flags \<and> field_type field = ''multipleRecordLinks'' then
            (case options field of
               None \<Rightarrow> if tables = [] then Inr ''Array<AirtableUid>'' else Inl TypeError
             | Some opts \<Rightarrow> Inr (''Array<'' @ linkedTableIdType D tables opts @ ''>''))
          else Inr fieldType))"

definition tsFieldLine ::
    "Deps \<Rightarrow> GenFlags \<Rightarrow> TableMetadata list \<Rightarrow> FieldMetadata \<Rightarrow> error + string" where
  "tsFieldLine D flags tables field =
     (case tsFieldType D flags tables field of
        Inl e \<Rightarrow> Inl e
      | Inr fieldType \<Rightarrow>
         Inr (''  '' @ quoted (field_name field)
              @ (if isReadonlyField D field then [] else ''?'') @ '': '' @ fieldType))"

definition tsTableBlock ::
    "Deps \<Rightarrow> GenFlags \<Rightarrow> TableMetadata list \<Rightarrow> TableMetadata \<Rightarrow> error + string list" where
  "tsTableBlock D flags tables table =
     (let tableName = pascalCase D (table_name table) in
      case mapE (tsFieldLine D flags tables) (table_fields table) of
        Inl e \<Rightarrow> Inl e
      | Inr entries \<Rightarrow>
         Inr ([[], ''export type '' @ tableName @ ''Id = AirtableUid;'', [],
               ''export interface '' @ tableName
               @ (if controllers flags then '' extends FieldSetWithId<'' @ tableName @ ''Id>''
                  else [])
               @ '' {'',
               ''  _id?: '' @ tableName
               @ ''Id; // not respected by the official Airtable Library'']
              @ entries
              @ [''}'', []]))"

definition TypedTableTmpl :: string where
  "TypedTableTmpl =
     ''\<newline>''
     @ ''export class TypedTable<ID extends AirtableUid, T extends FieldSetWithId<ID>> {\<newline>''
     @ ''  readonly _id : string\<newline>''
     @ ''  readonly _name : string\<newline>''
     @ ''  readonly table: Airtable.Table<T>\<newline>''
     @ ''  constructor(base: InstanceType<typeof Airtable.Base>, id: string, name: string) {\<newline>''
     @ ''    this._id = id\<newline>''
     @ ''    this._name = name\<newline>''
     @ ''    this.table = new Airtable.Table<T>(base, id, name);\<newline>''
     @ ''  }\<newline>''
     @ ''  async find(id: ID): Promise<T | undefined> {\<newline>''
     @ ''    const result = await this.table.find(id)\<newline>''
     @ ''    return result && result.fields ? {_id: id, ...result.fields} : undefined;\<newline>''
     @ ''  }\<newline>''
     @ ''  async select(options?: Airtable.SelectOptions<T>): Promise<T[]> {\<newline>''
     @ ''    const result = await this.table.select(options).all()\<newline>''
     @ ''    return result.map(r => ({_id: r.id, ...r.fields}))\<newline>''
     @ ''  }\<newline>''
     @ ''  async create(recordData: string | (Partial<T> & {_id: undefined})): Promise<T> {\<newline>''
     @ ''    const result = await this.table.create(recordData)\<newline>''
     @ ''    return {_id: result.id as ID, ...result.fields}\<newline>''
     @ ''  }\<newline>''
     @ ''  async update(recordData: Partial<T> & {_id: ID}): Promise<T> {\<newline>''
     @ ''    const {_id, ...fields } = recordData\<newline>''
     @ ''    const result = await this.table.update(_id, fields as Partial<T>)\<newline>''
     @ ''    return {_id, ...result.fields}\<newline>''
     @ ''  }\<newline>''
     @ ''  async destroy(id: ID): Promise<T> {\<newline>''
     @ ''    const result = await this.table.destroy(id)\<newline>''
     @ ''    return {_id: id, ...result.fields}\<newline>''
     @ ''  }\<newline>''
     @ ''}\<newline>''"

text \<open>The fragments pushed after the loop when controllers are generated.\<close>

definition tsControllers :: "Deps \<Rightarrow> BaseMetadata \<Rightarrow> TableMetadata list \<Rightarrow> string list" where
  "tsControllers D base tables =
     (let className = pascalCase D (base_name base) @ ''Base'' in
      [TypedTableTmpl
       @ ''\<newline>''
       @ ''export class '' @ className @ '' {\<newline>''
       @ ''  readonly at: Airtable\<newline>''
       @ ''  readonly base: InstanceType<typeof Airtable.Base>\<newline>''
       @ ''  static readonly _id: string = '' @ quoted (base_id base) @ ''\<newline>''
       @ ''  static readonly _name: string = '' @ quoted (base_name base) @ ''\<newline>''
       @ ''  constructor(options: Airtable.AirtableOptions) {\<newline>''
       @ ''      this.at = new Airtable(options)\<newline>''
       @ ''      this.base = new Airtable.Base(this.at, '' @ className @ ''._id);\<newline>''
       @ ''  }'',
       []]
      @ map (\<lambda>x. let tname = pascalCase D (table_name x) in
               ''  get'' @ tname @ ''Table = ()=> new TypedTable<'' @ tname @ ''Id, '' @ tname
               @ ''>(this.base, '' @ quoted (table_id x) @ '', '' @ quoted (table_name x)
               @ '');'')
            tables
      @ [''}'', []])"

text \<open>The array \<open>lines\<close> when the function returns.\<close>

definition tsLines ::
    "Deps \<Rightarrow> GenFlags \<Rightarrow> BaseMetadata \<Rightarrow> TableMetadata list \<Rightarrow> error + string list" where
  "tsLines D flags base tables =
     (case mapE (tsTableBlock D flags tables) tables of
        Inl e \<Rightarrow> Inl e
      | Inr blocks \<Rightarrow>
         Inr (tsPreamble D flags tables @ concat blocks
              @ (if controllers flags then tsControllers D base tables else [])))"

definition generateTSDefinitions ::
    "Deps \<Rightarrow> GenFlags \<Rightarrow> BaseMetadata \<Rightarrow> TableMetadata list \<Rightarrow> error + string" where
  "generateTSDefinitions D flags base tables =
     (case tsLines D flags base tables of
        Inl e \<Rightarrow> Inl e
      | Inr lines \<Rightarrow> Inr (join ''\<newline>'' lines))"

section \<open>Table selection\<close>

text \<open>
  \<open>getTableMetadata\<close> after the metadata has been fetched and parsed: \<open>tables\<close> is
  \<open>metadata.tables\<close>, and the allow-list is \<open>None\<close> when the flag is absent.
  \<open>this.error\<close> with an exit code ends the run.
\<close>

definition getTableMetadata ::
    "TableMetadata list \<Rightarrow> string list option \<Rightarrow> error + TableMetadata list" where
  "getTableMetadata metadata_tables allowlist =
     (case allowlist of
        None \<Rightarrow> Inr metadata_tables
      | Some al \<Rightarrow>
         (let tables = filter (\<lambda>table. table_id table \<in> set al \<or> table_name table \<in> set al)
                              metadata_tables
          in if length tables \<noteq> length al then
               Inl (TableSelectionMismatch
                     (''Could not find all tables:\<newline>\<newline>Requested: '' @ join '', '' al
                      @ ''\<newline>Found: '' @ join '', '' (map table_name tables)))
             else Inr tables))"

section \<open>The helpers, from the specification\<close>

text \<open>
  Modelled from the spec: the helper \<open>getFieldEnumName\<close> is not part of the sources.
  Section 4.3 gives the contract \<open>enumName(table, field)\<close>: a name derived from the
  table's and the field's display names, normalised to an identifier and unique within the
  table's block; it is used for the choice fields only, and fields with the same candidate
  are told apart by a numeric suffix in first-seen order, the first one keeping the
  candidate. The normalisation is the parameter \<open>norm\<close>.

  The source passes the field object of its loop over \<open>table.fields\<close>; here a field is
  given by its position in the table, so that two fields with the same content remain two
  fields. The choice fields below that position have been seen: the state holds their
  candidates and the names given to them. A field whose candidate has been seen gets the
  candidate followed by the least number from 2 on that gives a name which is neither the
  candidate of a choice field of the table nor a name already given, so that the names of
  a table do not collide.
\<close>

fun decimal :: "nat \<Rightarrow> string" where
  "decimal n =
     (if n < 10 then [char_of (48 + n)]
      else decimal (n div 10) @ [char_of (48 + n mod 10)])"

declare decimal.simps [simp del]

definition choiceField :: "FieldMetadata \<Rightarrow> bool" where
  "choiceField f \<longleftrightarrow> field_type f = ''singleSelect'' \<or> field_type f = ''multipleSelects''"

definition candidate :: "(string \<Rightarrow> string) \<Rightarrow> TableMetadata \<Rightarrow> FieldMetadata \<Rightarrow> string" where
  "candidate norm table field = norm (table_name table) @ norm (field_name field)"

definition reserved :: "(string \<Rightarrow> string) \<Rightarrow> TableMetadata \<Rightarrow> string list" where
  "reserved norm table =
     map (candidate norm table) (filter choiceField (table_fields table))"

text \<open>
  Among \<open>length avoid + 1\<close> numbers there is one whose name is not in \<open>avoid\<close>, so
  the search finds it.
\<close>

definition firstFree :: "string \<Rightarrow> string list \<Rightarrow> nat" where
  "firstFree c avoid =
     (case find (\<lambda>n. c @ decimal n \<notin> set avoid) [2 ..< 3 + length avoid] of
        Some n \<Rightarrow> n
      | None \<Rightarrow> 2)"

text \<open>The state: the candidates seen and the names given.\<close>

definition nameOf ::
    "(string \<Rightarrow> string) \<Rightarrow> TableMetadata \<Rightarrow> string list \<times> string list \<Rightarrow> FieldMetadata
     \<Rightarrow> string" where
  "nameOf norm table st field =
     (let c = candidate norm table field
      in if c \<in> set (fst st)
         then c @ decimal (firstFree c (reserved norm table @ snd st))
         else c)"

definition step ::
    "(string \<Rightarrow> string) \<Rightarrow> TableMetadata \<Rightarrow> string list \<times> string list \<Rightarrow> FieldMetadata
     \<Rightarrow> string list \<times> string list" where
  "step norm table st field =
     (if choiceField field
      then (candidate norm table field # fst st, nameOf norm table st field # snd st)
      else st)"

definition namesBefore ::
    "(string \<Rightarrow> string) \<Rightarrow> TableMetadata \<Rightarrow> nat \<Rightarrow> string list \<times> string list" where
  "namesBefore norm table i = foldl (step norm table) ([], []) (take i (table_fields table))"

definition enumNameAt :: "(string \<Rightarrow> string) \<Rightarrow> TableMetadata \<Rightarrow> nat \<Rightarrow> string" where
  "enumNameAt norm table i =
     (case drop i (table_fields table) of
        [] \<Rightarrow> []
      | field # _ \<Rightarrow> nameOf norm table (namesBefore norm table i) field)"

text \<open>
  The helper with the signature of the source, for the dependencies of the concrete
  evaluations. A record does not carry the identity of the field object: it is looked up
  at its first position in the table, which is the position of the field when the fields
  of the table are pairwise different records.
\<close>

definition enumName :: "(string \<Rightarrow> string) \<Rightarrow> TableMetadata \<Rightarrow> FieldMetadata \<Rightarrow> string" where
  "enumName norm table field =
     (if field \<in> set (table_fields table)
      then enumNameAt norm table (length (takeWhile (\<lambda>g. g \<noteq> field) (table_fields table)))
      else candidate norm table field)"

text \<open>
  Modelled from the spec: the helper \<open>isReadonlyField\<close> is not part of the sources.
  Section 4.2 names the system-computed categories: auto-incrementing counters, aggregate
  rollups, computed formulas, creation and modification timestamps and actors, and
  external-sync placeholders.
\<close>

definition isReadonly :: "string \<Rightarrow> bool" where
  "isReadonly tag \<longleftrightarrow>
     tag \<in> set [''autoNumber'', ''rollup'', ''formula'', ''createdTime'', ''lastModifiedTime'',
                ''createdBy'', ''lastModifiedBy'', ''externalSyncSource'']"

text \<open>
  Modelled from the spec: the helpers \<open>hasAttachmentField\<close> and
  \<open>hasCollaboratorField\<close> are not part of the sources. Section 4.6: a shared shape is
  needed if any selected table has a field of its category; the collaborator tags are
  those the Zod mapper sends to the collaborator shape.
\<close>

definition needsAttachmentShape :: "FieldMetadata list \<Rightarrow> bool" where
  "needsAttachmentShape fs = list_ex (\<lambda>f. field_type f = ''multipleAttachments'') fs"

definition needsCollaboratorShape :: "FieldMetadata list \<Rightarrow> bool" where
  "needsCollaboratorShape fs =
     list_ex (\<lambda>f. field_type f \<in> set [''createdBy'', ''lastModifiedBy'', ''singleCollaborator'',
                                        ''multipleCollaborators'']) fs"

text \<open>
  Modelled from the spec: the table \<open>CellFormatTypescriptDefinitions\<close> is not part of
  the sources. Section 4.4 only says that the static-typing mapper emits language-native
  types (boolean, numeric, string); the entries below are such types for a few tags, and
  serve the concrete evaluations only.
\<close>

definition exampleCellFormat :: "string \<Rightarrow> string option" where
  "exampleCellFormat ty =
     (if ty \<in> set [''number'', ''percent'', ''currency'', ''duration'', ''rating'',
                     ''autoNumber'', ''count''] then
        Some ''number''
      else if ty = ''checkbox'' then Some ''boolean''
      else if ty \<in> set [''singleLineText'', ''multilineText'', ''email'', ''url''] then
        Some ''string''
      else if ty = ''multipleRecordLinks'' then Some ''string[]''
      else if ty = ''formula'' then Some ''string | number''
      else None)"

text \<open>
  The dependencies for the concrete evaluations. \<open>pascalCase\<close> leaves a single
  capitalised word as it is, and the evaluations below use no other names.
\<close>

definition specDeps :: Deps where
  "specDeps =
     \<lparr>pascalCase = (\<lambda>s. s),
      printCellFormat = exampleCellFormat,
      getFieldEnumName = enumName (\<lambda>s. s),
      hasAttachmentField = needsAttachmentShape,
      hasCollaboratorField = needsCollaboratorShape,
      isReadonlyField = (\<lambda>f. isReadonly (field_type f))\<rparr>"

text \<open>
  Example metadata for the concrete evaluations: two tables, the first with a field linked
  to the second and a field linked to a table that is not selected.
\<close>

definition exNr :: FieldMetadata where
  "exNr = \<lparr>field_name = ''Nr'', field_type = ''autoNumber'', options = None\<rparr>"

definition exPaid :: FieldMetadata where
  "exPaid = \<lparr>field_name = ''Paid'', field_type = ''checkbox'', options = None\<rparr>"

definition exCustomer :: FieldMetadata where
  "exCustomer =
     \<lparr>field_name = ''Customer'', field_type = ''multipleRecordLinks'',
      options = Some \<lparr>precision = None, choices = None,
                      linkedTableId = Some ''tblCustomers'', result = None\<rparr>\<rparr>"

definition exSupplier :: FieldMetadata where
  "exSupplier =
     \<lparr>field_name = ''Supplier'', field_type = ''multipleRecordLinks'',
      options = Some \<lparr>precision = None, choices = None,
                      linkedTableId = Some ''tblSuppliers'', result = None\<rparr>\<rparr>"

definition exFiles :: FieldMetadata where
  "exFiles = \<lparr>field_name = ''Files'', field_type = ''multipleAttachments'', options = None\<rparr>"

definition exOrders :: TableMetadata where
  "exOrders =
     \<lparr>table_id = ''tblOrders'', table_name = ''Orders'',
      table_fields = [exNr, exPaid, exCustomer, exSupplier]\<rparr>"

definition exCustomers :: TableMetadata where
  "exCustomers =
     \<lparr>table_id = ''tblCustomers'', table_name = ''Customers'', table_fields = [exFiles]\<rparr>"

definition exBase :: BaseMetadata where
  "exBase = \<lparr>base_id = ''appShop'', base_name = ''Shop''\<rparr>"

text \<open>
  A table with a text field and two select fields of the same display name, the two
  select fields with the same content, and a select field whose name is that name followed
  by a digit.
\<close>

definition exStatusText :: FieldMetadata where
  "exStatusText = \<lparr>field_name = ''Status'', field_type = ''singleLineText'', options = None\<rparr>"

definition exStatus :: FieldMetadata where
  "exStatus =
     \<lparr>field_name = ''Status'', field_type = ''singleSelect'',
      options = Some \<lparr>precision = None,
                      choices = Some [\<lparr>choice_name = ''Open''\<rparr>, \<lparr>choice_name = ''Closed''\<rparr>],
                      linkedTableId = None, result = None\<rparr>\<rparr>"

definition exStatus2 :: FieldMetadata where
  "exStatus2 =
     \<lparr>field_name = ''Status2'', field_type = ''multipleSelects'',
      options = Some \<lparr>precision = None,
                      choices = Some [\<lparr>choice_name = ''Open''\<rparr>, \<lparr>choice_name = ''Closed''\<rparr>],
                      linkedTableId = None, result = None\<rparr>\<rparr>"

definition exTickets :: TableMetadata where
  "exTickets =
     \<lparr>table_id = ''tblTickets'', table_name = ''Tickets'',
      table_fields = [exStatusText, exStatus, exStatus, exStatus2]\<rparr>"

text \<open>Two tables, the second of which has the id of the first as its name.\<close>

definition exAlpha :: TableMetadata where
  "exAlpha = \<lparr>table_id = ''tblA'', table_name = ''Alpha'', table_fields = []\<rparr>"

definition exBeta :: TableMetadata where
  "exBeta = \<lparr>table_id = ''tblB'', table_name = ''tblA'', table_fields = []\<rparr>"

section \<open>Tags outside the enumeration\<close>

lemma getTsForFieldType_recognized: "getTsForFieldType D ty \<noteq> Inl (UnrecognizedFieldType m)"
  by (simp add: getTsForFieldType_def split: option.splits)

lemma choiceUnion_recognized: "choiceUnion f \<noteq> Inl (UnrecognizedFieldType m)"
  by (simp add: choiceUnion_def split: option.splits)

lemma getZodType_recognized:
  "field_type f \<in> set FieldType \<Longrightarrow> getZodType D t f \<noteq> Inl (UnrecognizedFieldType m)"
  unfolding FieldType_def set_simps insert_iff empty_iff
  apply (elim disjE)
  apply (simp_all add: getZodType_def)
  done

lemma getTsType_recognized:
  "field_type f \<in> set FieldType \<Longrightarrow> getTsType D f opts \<noteq> Inl (UnrecognizedFieldType m)"
  unfolding FieldType_def set_simps insert_iff empty_iff
  apply (elim disjE)
  apply (simp_all add: getTsType_def getTsForFieldType_recognized choiceUnion_recognized
      split: sum.splits)
  apply (blast dest: choiceUnion_recognized [THEN notE])
  done

lemma getZodType_unrecognized:
  "field_type f \<notin> set FieldType \<Longrightarrow>
   getZodType D t f = Inl (UnrecognizedFieldType (unrecognized f))"
  by (simp add: getZodType_def FieldType_def)

lemma getTsType_unrecognized:
  "field_type f \<notin> set FieldType \<Longrightarrow>
   getTsType D f opts = Inl (UnrecognizedFieldType (unrecognized f))"
  by (simp add: getTsType_def FieldType_def)

text \<open>
  C3: for a field whose tag is outside the enumeration, both mappers fail with the
  error UnrecognizedFieldType, and its message holds the raw tag and the field's name as
  they are; for a tag inside the enumeration neither mapper fails with that error.
\<close>

theorem unrecognized_field_type:
  "(field_type f \<notin> set FieldType \<longrightarrow>
      getZodType D t f =
        Inl (UnrecognizedFieldType
              (''Unrecognized field type: '' @ field_type f @ '' (on field ''
               @ [CHR 0x27] @ field_name f @ [CHR 0x27] @ '')''))
      \<and> getTsType D f opts =
        Inl (UnrecognizedFieldType
              (''Unrecognized field type: '' @ field_type f @ '' (on field ''
               @ [CHR 0x27] @ field_name f @ [CHR 0x27] @ '')'')))
   \<and> (field_type f \<in> set FieldType \<longrightarrow>
      (\<forall>m. getZodType D t f \<noteq> Inl (UnrecognizedFieldType m)
           \<and> getTsType D f opts \<noteq> Inl (UnrecognizedFieldType m)))"
  using getZodType_unrecognized [of f D t] getTsType_unrecognized [of f D opts]
    getZodType_recognized [of f D t] getTsType_recognized [of f D opts]
  by (simp add: unrecognized_def quoted_def)

theorem unrecognized_field_type_witness:
  "getZodType specDeps \<lparr>table_id = ''tbl1'', table_name = ''Orders'', table_fields = []\<rparr>
     \<lparr>field_name = ''Total'', field_type = ''hologram'', options = None\<rparr>
   = Inl (UnrecognizedFieldType ''Unrecognized field type: hologram (on field 'Total')'')
   \<and> getTsType specDeps
     \<lparr>field_name = ''Total'', field_type = ''hologram'', options = None\<rparr>
     \<lparr>useAirtableLibraryTypes = False\<rparr>
   = Inl (UnrecognizedFieldType ''Unrecognized field type: hologram (on field 'Total')'')
   \<and> getZodType specDeps \<lparr>table_id = ''tbl1'', table_name = ''Orders'', table_fields = []\<rparr>
     \<lparr>field_name = ''Done'', field_type = ''checkbox'', options = None\<rparr>
   \<noteq> Inl (UnrecognizedFieldType ''Unrecognized field type: checkbox (on field 'Done')'')
   \<and> getTsType specDeps
     \<lparr>field_name = ''Done'', field_type = ''checkbox'', options = None\<rparr>
     \<lparr>useAirtableLibraryTypes = False\<rparr>
   \<noteq> Inl (UnrecognizedFieldType ''Unrecognized field type: checkbox (on field 'Done')'')"
  using unrecognized_field_type
      [of "\<lparr>field_name = ''Total'', field_type = ''hologram'', options = None\<rparr>"
          specDeps "\<lparr>table_id = ''tbl1'', table_name = ''Orders'', table_fields = []\<rparr>"
          "\<lparr>useAirtableLibraryTypes = False\<rparr>"]
    unrecognized_field_type
      [of "\<lparr>field_name = ''Done'', field_type = ''checkbox'', options = None\<rparr>"
          specDeps "\<lparr>table_id = ''tbl1'', table_name = ''Orders'', table_fields = []\<rparr>"
          "\<lparr>useAirtableLibraryTypes = False\<rparr>"]
  by (simp add: FieldType_def)

section \<open>Derived result types\<close>

lemma derivedType_bind:
  "derivedType f =
     (case Option.bind (Option.bind (options f) result) result_type of
        None \<Rightarrow> field_type f | Some r \<Rightarrow> r)"
  by (simp add: derivedType_def split: option.splits)

text \<open>
  C9: in the static-typing mapper, a field with one of the five tags of the derived case is
  mapped through the result type its options declare when there is one, and through its
  own tag otherwise.
\<close>

theorem derived_result_type:
  "field_type f \<in> set [''createdTime'', ''formula'', ''lastModifiedTime'',
                        ''multipleLookupValues'', ''rollup''] \<Longrightarrow>
   (Option.bind (Option.bind (options f) result) result_type = Some r \<longrightarrow>
      getTsType D f opts = getTsForFieldType D r)
   \<and> (Option.bind (Option.bind (options f) result) result_type = None \<longrightarrow>
      getTsType D f opts = getTsForFieldType D (field_type f))"
  unfolding set_simps insert_iff empty_iff
  apply (elim disjE)
  apply (simp_all add: getTsType_def derivedType_bind)
  done

theorem derived_result_type_witness:
  "getTsType specDeps
     \<lparr>field_name = ''Score'', field_type = ''formula'',
      options = Some \<lparr>precision = None, choices = None, linkedTableId = None,
                      result = Some \<lparr>result_type = Some ''checkbox''\<rparr>\<rparr>\<rparr>
     \<lparr>useAirtableLibraryTypes = False\<rparr> = Inr ''boolean''
   \<and> getTsType specDeps
     \<lparr>field_name = ''Score'', field_type = ''formula'', options = None\<rparr>
     \<lparr>useAirtableLibraryTypes = False\<rparr> = Inr ''string | number''"
  using derived_result_type
      [of "\<lparr>field_name = ''Score'', field_type = ''formula'',
            options = Some \<lparr>precision = None, choices = None, linkedTableId = None,
                            result = Some \<lparr>result_type = Some ''checkbox''\<rparr>\<rparr>\<rparr>"
          "''checkbox''" specDeps "\<lparr>useAirtableLibraryTypes = False\<rparr>"]
    derived_result_type
      [of "\<lparr>field_name = ''Score'', field_type = ''formula'', options = None\<rparr>"
          "''checkbox''" specDeps "\<lparr>useAirtableLibraryTypes = False\<rparr>"]
  by (simp add: getTsForFieldType_def specDeps_def exampleCellFormat_def)

section \<open>Select fields without choices\<close>

text \<open>
  C8: the static-typing mapper returns the empty string for a single-select field
  whose list of choices is empty, although the tag is in the enumeration.
\<close>

theorem empty_choice_list_empty_type:
  "getTsType D
     \<lparr>field_name = ''Status'', field_type = ''singleSelect'',
      options = Some \<lparr>precision = None, choices = Some [], linkedTableId = None,
                      result = None\<rparr>\<rparr>
     opts = Inr []"
  by (simp add: getTsType_def choiceUnion_def)

section \<open>Numeric fields\<close>

lemma zod_numeric:
  "field_type f \<in> set [''number'', ''percent'', ''currency''] \<Longrightarrow>
   getZodType D t f =
     Inr (if Option.bind (options f) precision = Some 0 then ''z.number().int().positive()''
          else ''z.number().positive()'')"
  unfolding set_simps insert_iff empty_iff
  apply (elim disjE)
  apply (simp_all add: getZodType_def split: option.splits)
  done

lemma ts_numeric:
  "field_type f \<in> set [''number'', ''percent'', ''currency'', ''rating'', ''duration''] \<Longrightarrow>
   getTsType D f opts = getTsForFieldType D (field_type f)"
  unfolding set_simps insert_iff empty_iff
  apply (elim disjE)
  apply (simp_all add: getTsType_def)
  done

text \<open>
  C4, as the code has it: the Zod mapper sends a number, percent or currency field to the
  positive-integer validator when its precision is exactly zero and to the positive-number
  validator otherwise (also when there is no precision), a rating to the validator bounded
  by 0 and 5 and a duration to the plain number validator; the static-typing mapper prints
  the table entry of the tag for all five, whatever the precision.
\<close>

theorem numeric_constraints:
  "(field_type f \<in> set [''number'', ''percent'', ''currency''] \<longrightarrow>
      (Option.bind (options f) precision = Some 0 \<longrightarrow>
         getZodType D t f = Inr ''z.number().int().positive()'')
      \<and> (Option.bind (options f) precision \<noteq> Some 0 \<longrightarrow>
         getZodType D t f = Inr ''z.number().positive()''))
   \<and> (field_type f = ''rating'' \<longrightarrow> getZodType D t f = Inr ''z.number().min(0).max(5)'')
   \<and> (field_type f = ''duration'' \<longrightarrow> getZodType D t f = Inr ''z.number()'')
   \<and> (field_type f \<in> set [''number'', ''percent'', ''currency'', ''rating'', ''duration''] \<longrightarrow>
        getTsType D f opts = getTsForFieldType D (field_type f))"
  using zod_numeric [of f D t] ts_numeric [of f D opts]
  by (simp add: getZodType_def)

theorem numeric_constraints_witness:
  "getZodType specDeps \<lparr>table_id = ''tbl1'', table_name = ''Orders'', table_fields = []\<rparr>
     \<lparr>field_name = ''Qty'', field_type = ''number'',
      options = Some \<lparr>precision = Some 0, choices = None, linkedTableId = None,
                      result = None\<rparr>\<rparr> = Inr ''z.number().int().positive()''
   \<and> getTsType specDeps
     \<lparr>field_name = ''Qty'', field_type = ''number'',
      options = Some \<lparr>precision = Some 0, choices = None, linkedTableId = None,
                      result = None\<rparr>\<rparr>
     \<lparr>useAirtableLibraryTypes = False\<rparr> = Inr ''number''
   \<and> getZodType specDeps \<lparr>table_id = ''tbl1'', table_name = ''Orders'', table_fields = []\<rparr>
     \<lparr>field_name = ''Price'', field_type = ''currency'',
      options = Some \<lparr>precision = Some 2, choices = None, linkedTableId = None,
                      result = None\<rparr>\<rparr> = Inr ''z.number().positive()''
   \<and> getZodType specDeps \<lparr>table_id = ''tbl1'', table_name = ''Orders'', table_fields = []\<rparr>
     \<lparr>field_name = ''Stars'', field_type = ''rating'', options = None\<rparr>
     = Inr ''z.number().min(0).max(5)''
   \<and> getZodType specDeps \<lparr>table_id = ''tbl1'', table_name = ''Orders'', table_fields = []\<rparr>
     \<lparr>field_name = ''Took'', field_type = ''duration'', options = None\<rparr>
     = Inr ''z.number()''"
  using numeric_constraints
      [of "\<lparr>field_name = ''Qty'', field_type = ''number'',
            options = Some \<lparr>precision = Some 0, choices = None, linkedTableId = None,
                            result = None\<rparr>\<rparr>"
          specDeps "\<lparr>table_id = ''tbl1'', table_name = ''Orders'', table_fields = []\<rparr>"
          "\<lparr>useAirtableLibraryTypes = False\<rparr>"]
    numeric_constraints
      [of "\<lparr>field_name = ''Price'', field_type = ''currency'',
            options = Some \<lparr>precision = Some 2, choices = None, linkedTableId = None,
                            result = None\<rparr>\<rparr>"
          specDeps "\<lparr>table_id = ''tbl1'', table_name = ''Orders'', table_fields = []\<rparr>"
          "\<lparr>useAirtableLibraryTypes = False\<rparr>"]
    numeric_constraints
      [of "\<lparr>field_name = ''Stars'', field_type = ''rating'', options = None\<rparr>"
          specDeps "\<lparr>table_id = ''tbl1'', table_name = ''Orders'', table_fields = []\<rparr>"
          "\<lparr>useAirtableLibraryTypes = False\<rparr>"]
    numeric_constraints
      [of "\<lparr>field_name = ''Took'', field_type = ''duration'', options = None\<rparr>"
          specDeps "\<lparr>table_id = ''tbl1'', table_name = ''Orders'', table_fields = []\<rparr>"
          "\<lparr>useAirtableLibraryTypes = False\<rparr>"]
  by (simp add: getTsForFieldType_def specDeps_def exampleCellFormat_def)

text \<open>
  The static-typing mapper does not tell a precision of zero from a precision of two.
\<close>

theorem ts_precision_counterexample:
  "getTsType specDeps
     \<lparr>field_name = ''Qty'', field_type = ''number'',
      options = Some \<lparr>precision = Some 0, choices = None, linkedTableId = None,
                      result = None\<rparr>\<rparr>
     \<lparr>useAirtableLibraryTypes = False\<rparr>
   = getTsType specDeps
     \<lparr>field_name = ''Qty'', field_type = ''number'',
      options = Some \<lparr>precision = Some 2, choices = None, linkedTableId = None,
                      result = None\<rparr>\<rparr>
     \<lparr>useAirtableLibraryTypes = False\<rparr>
   \<and> getTsType specDeps
     \<lparr>field_name = ''Qty'', field_type = ''number'',
      options = Some \<lparr>precision = Some 0, choices = None, linkedTableId = None,
                      result = None\<rparr>\<rparr>
     \<lparr>useAirtableLibraryTypes = False\<rparr> = Inr ''number''"
  by (simp add: getTsType_def getTsForFieldType_def specDeps_def exampleCellFormat_def)

section \<open>The entries of a table block\<close>

lemma mapE_Inr_mem:
  "mapE g xs = Inr ys \<Longrightarrow> x \<in> set xs \<Longrightarrow> \<exists>y. g x = Inr y \<and> y \<in> set ys"
proof (induction xs arbitrary: ys)
  case Nil
  then show ?case by simp
next
  case (Cons a xs)
  from Cons.prems(1) obtain b bs where
    a: "g a = Inr b" and rest: "mapE g xs = Inr bs" and ys: "ys = b # bs"
    by (auto split: sum.splits)
  show ?case
  proof (cases "x = a")
    case True
    with a ys show ?thesis by simp
  next
    case False
    with Cons.prems(2) have "x \<in> set xs" by simp
    from Cons.IH [OF rest this] ys show ?thesis by auto
  qed
qed

lemma zodTableBlock_entry:
  assumes "zodTableBlock D t = Inr b" and "f \<in> set (table_fields t)"
  shows "\<exists>l. zodFieldLine D t f = Inr l \<and> l \<in> set b"
proof -
  from assms(1) obtain enums entries where
    e: "mapE (zodFieldLine D t) (table_fields t) = Inr entries" and
    b: "b = concat enums
          @ [''export const '' @ (pascalCase D (table_name t) @ ''Schema'') @ '' = z.object({'']
          @ entries
          @ [''})'',
             ''export type '' @ pascalCase D (table_name t) @ '' = z.infer<typeof ''
               @ (pascalCase D (table_name t) @ ''Schema'') @ ''>'',
             []]"
    by (auto simp: zodTableBlock_def Let_def split: sum.splits)
  from mapE_Inr_mem [OF e assms(2)] obtain l where
    "zodFieldLine D t f = Inr l" "l \<in> set entries" by blast
  with b show ?thesis by simp
qed

lemma zodLines_entry:
  assumes "zodLines D tables = Inr ls" and "t \<in> set tables" and "f \<in> set (table_fields t)"
  shows "\<exists>l. zodFieldLine D t f = Inr l \<and> l \<in> set ls"
proof -
  from assms(1) obtain blocks where
    m: "mapE (zodTableBlock D) tables = Inr blocks" and
    ls: "ls = zodPreamble D tables @ concat blocks"
    by (auto simp: zodLines_def split: sum.splits)
  from mapE_Inr_mem [OF m assms(2)] obtain b where
    b: "zodTableBlock D t = Inr b" "b \<in> set blocks" by blast
  from zodTableBlock_entry [OF b(1) assms(3)] obtain l where
    "zodFieldLine D t f = Inr l" "l \<in> set b" by blast
  with b(2) ls show ?thesis by auto
qed

lemma tsTableBlock_entry:
  assumes "tsTableBlock D flags tables t = Inr b" and "f \<in> set (table_fields t)"
  shows "\<exists>l. tsFieldLine D flags tables f = Inr l \<and> l \<in> set b"
proof -
  from assms(1) obtain entries pre where
    e: "mapE (tsFieldLine D flags tables) (table_fields t) = Inr entries" and
    b: "b = pre @ entries @ [''}'', []]"
    by (auto simp: tsTableBlock_def Let_def split: sum.splits)
  from mapE_Inr_mem [OF e assms(2)] obtain l where
    "tsFieldLine D flags tables f = Inr l" "l \<in> set entries" by blast
  with b show ?thesis by simp
qed

lemma tsLines_entry:
  assumes "tsLines D flags base tables = Inr ls" and "t \<in> set tables"
    and "f \<in> set (table_fields t)"
  shows "\<exists>l. tsFieldLine D flags tables f = Inr l \<and> l \<in> set ls"
proof -
  from assms(1) obtain blocks where
    m: "mapE (tsTableBlock D flags tables) tables = Inr blocks" and
    ls: "ls = tsPreamble D flags tables @ concat blocks
           @ (if controllers flags then tsControllers D base tables else [])"
    by (auto simp: tsLines_def split: sum.splits)
  from mapE_Inr_mem [OF m assms(2)] obtain b where
    b: "tsTableBlock D flags tables t = Inr b" "b \<in> set blocks" by blast
  from tsTableBlock_entry [OF b(1) assms(3)] obtain l where
    "tsFieldLine D flags tables f = Inr l" "l \<in> set b" by blast
  with b(2) ls show ?thesis by auto
qed

lemma zodFieldLine_Inr:
  "zodFieldLine D t f = Inr l \<Longrightarrow>
   \<exists>ty. getZodType D t f = Inr ty
     \<and> l = ''  '' @ quoted (field_name f) @ '': '' @ ty
           @ (if isReadonlyField D f then '','' else ''.optional(),'')"
  by (auto simp: zodFieldLine_def split: sum.splits)

lemma tsFieldLine_Inr:
  "tsFieldLine D flags tables f = Inr l \<Longrightarrow>
   \<exists>ty. tsFieldType D flags tables f = Inr ty
     \<and> l = ''  '' @ quoted (field_name f) @ (if isReadonlyField D f then [] else ''?'')
           @ '': '' @ ty"
  by (auto simp: tsFieldLine_def split: sum.splits)

text \<open>
  C2: in both dialects the entry generated for a field of a selected table carries the
  optionality marker exactly when the field is not classified readonly: the Zod entry
  ends with a comma right after the field's type for a readonly field and with
  \<open>.optional(),\<close> otherwise; the TypeScript entry has the colon right after the quoted
  name for a readonly field and \<open>?:\<close> otherwise.
\<close>

theorem optionality_marker:
  assumes "t \<in> set tables" and "f \<in> set (table_fields t)"
  shows "(zodLines D tables = Inr ls \<longrightarrow>
           (\<exists>ty. getZodType D t f = Inr ty
              \<and> ''  '' @ quoted (field_name f) @ '': '' @ ty
                  @ (if isReadonlyField D f then '','' else ''.optional(),'') \<in> set ls))
         \<and> (tsLines D flags base tables = Inr ls' \<longrightarrow>
           (\<exists>ty. tsFieldType D flags tables f = Inr ty
              \<and> ''  '' @ quoted (field_name f) @ (if isReadonlyField D f then [] else ''?'')
                  @ '': '' @ ty \<in> set ls'))"
proof (intro conjI impI)
  assume "zodLines D tables = Inr ls"
  from zodLines_entry [OF this assms] obtain l where
    l: "zodFieldLine D t f = Inr l" "l \<in> set ls" by blast
  from zodFieldLine_Inr [OF l(1)] l(2)
  show "\<exists>ty. getZodType D t f = Inr ty
          \<and> ''  '' @ quoted (field_name f) @ '': '' @ ty
              @ (if isReadonlyField D f then '','' else ''.optional(),'') \<in> set ls"
    by blast
next
  assume "tsLines D flags base tables = Inr ls'"
  from tsLines_entry [OF this assms] obtain l where
    l: "tsFieldLine D flags tables f = Inr l" "l \<in> set ls'" by blast
  from tsFieldLine_Inr [OF l(1)] l(2)
  show "\<exists>ty. tsFieldType D flags tables f = Inr ty
          \<and> ''  '' @ quoted (field_name f) @ (if isReadonlyField D f then [] else ''?'')
              @ '': '' @ ty \<in> set ls'"
    by blast
qed

lemmas ex_defs = exNr_def exPaid_def exCustomer_def exSupplier_def exFiles_def exOrders_def
  exCustomers_def exBase_def specDeps_def exampleCellFormat_def isReadonly_def
  needsAttachmentShape_def needsCollaboratorShape_def

lemma zodLines_example:
  "case zodLines specDeps [exOrders, exCustomers] of Inl e \<Rightarrow> False | Inr ls \<Rightarrow> True"
  by code_simp

lemma tsLines_example:
  "case tsLines specDeps \<lparr>controllers = False, genIds = True\<rparr> exBase [exOrders, exCustomers]
   of Inl e \<Rightarrow> False | Inr ls \<Rightarrow> True"
  by code_simp

theorem optionality_marker_witness:
  "(\<exists>ls. zodLines specDeps [exOrders, exCustomers] = Inr ls
      \<and> ''  'Nr': z.number().int().positive(),'' \<in> set ls
      \<and> ''  'Paid': z.boolean().optional(),'' \<in> set ls)
   \<and> (\<exists>ls. tsLines specDeps \<lparr>controllers = False, genIds = True\<rparr> exBase
               [exOrders, exCustomers] = Inr ls
      \<and> ''  'Nr': number'' \<in> set ls
      \<and> ''  'Paid'?: boolean'' \<in> set ls)"
proof -
  from zodLines_example obtain ls where
    ls: "zodLines specDeps [exOrders, exCustomers] = Inr ls"
    by (auto split: sum.splits)
  from tsLines_example obtain ls' where
    ls': "tsLines specDeps \<lparr>controllers = False, genIds = True\<rparr> exBase
            [exOrders, exCustomers] = Inr ls'"
    by (auto split: sum.splits)
  have mem: "exOrders \<in> set [exOrders, exCustomers]" by simp
  have nr: "exNr \<in> set (table_fields exOrders)" by (simp add: exOrders_def)
  have paid: "exPaid \<in> set (table_fields exOrders)" by (simp add: exOrders_def)
  have ro: "isReadonlyField specDeps exNr" "\<not> isReadonlyField specDeps exPaid"
    by (simp_all add: specDeps_def isReadonly_def exNr_def exPaid_def)
  have ty: "getZodType specDeps exOrders exNr = Inr ''z.number().int().positive()''"
    "getZodType specDeps exOrders exPaid = Inr ''z.boolean()''"
    "tsFieldType specDeps \<lparr>controllers = False, genIds = True\<rparr> [exOrders, exCustomers] exNr
       = Inr ''number''"
    "tsFieldType specDeps \<lparr>controllers = False, genIds = True\<rparr> [exOrders, exCustomers] exPaid
       = Inr ''boolean''"
    by (simp_all add: getZodType_def tsFieldType_def getTsType_def getTsForFieldType_def
        specDeps_def exampleCellFormat_def exNr_def exPaid_def)
  have nm: "field_name exNr = ''Nr''" "field_name exPaid = ''Paid''"
    by (simp_all add: exNr_def exPaid_def)
  from optionality_marker [OF mem nr, of specDeps ls "\<lparr>controllers = False, genIds = True\<rparr>"
      exBase ls']
    optionality_marker [OF mem paid, of specDeps ls "\<lparr>controllers = False, genIds = True\<rparr>"
      exBase ls'] ls ls'
  show ?thesis
    by (simp add: ro ty nm quoted_def)
qed

section \<open>Fields linked to another table\<close>

lemma linked_unique:
  assumes "t \<in> set tables" and "Some (table_id t) = linkedTableId opts"
    and "\<forall>u\<in>set tables. table_id u = table_id t \<longrightarrow> u = t"
  shows "linkedTableIdType D tables opts = pascalCase D (table_name t) @ ''Id''"
proof -
  let ?sel = "filter (\<lambda>u. Some (table_id u) = linkedTableId opts) tables"
  from assms(1,2) have ne: "?sel \<noteq> []" by (auto simp: filter_empty_conv)
  have "\<forall>u\<in>set ?sel. u = t"
  proof
    fix u assume "u \<in> set ?sel"
    then have "u \<in> set tables" and "Some (table_id u) = linkedTableId opts" by simp_all
    with assms(2,3) show "u = t" by (metis option.inject)
  qed
  then have "last ?sel = t" using last_in_set [OF ne] by blast
  then have "?sel = butlast ?sel @ [t]"
    using append_butlast_last_id [OF ne] by simp
  then obtain ys where "?sel = ys @ [t]" ..
  then show ?thesis by (simp add: linkedTableIdType_def)
qed

lemma linked_absent:
  assumes "\<forall>u\<in>set tables. Some (table_id u) \<noteq> linkedTableId opts"
  shows "linkedTableIdType D tables opts = ''AirtableUid''"
proof -
  from assms have "filter (\<lambda>u. Some (table_id u) = linkedTableId opts) tables = []"
    by (simp add: filter_empty_conv)
  then show ?thesis by (simp add: linkedTableIdType_def)
qed

lemma zod_record_links:
  "field_type f = ''multipleRecordLinks'' \<Longrightarrow> getZodType D tb f = Inr ''z.array(z.string())''"
  by (simp add: getZodType_def)

lemma ts_record_links:
  "field_type f = ''multipleRecordLinks'' \<Longrightarrow> getTsType D f os = getTsForFieldType D ''multipleRecordLinks''"
  by (simp add: getTsType_def)

text \<open>
  C1, as the code has it: the Zod mapper sends every record-link field to
  \<open>z.array(z.string())\<close>. The TypeScript generator keeps the mapper's type when ids are
  not generated; when they are, the field's type is an array of the identifier type of the
  table of the set that has the linked id, and an array of \<open>AirtableUid\<close> when no table
  of the set has it, which is never an error.
\<close>

theorem reference_field_resolution:
  assumes "field_type f = ''multipleRecordLinks''"
  shows "getZodType D tb f = Inr ''z.array(z.string())''
    \<and> (\<not> genIds flags \<longrightarrow>
         tsFieldType D flags tables f =
           getTsType D f \<lparr>useAirtableLibraryTypes = controllers flags\<rparr>)
    \<and> (genIds flags \<and> options f = Some opts
         \<and> printCellFormat D ''multipleRecordLinks'' \<noteq> None \<longrightarrow>
         (\<forall>t\<in>set tables.
            Some (table_id t) = linkedTableId opts
            \<and> (\<forall>u\<in>set tables. table_id u = table_id t \<longrightarrow> u = t) \<longrightarrow>
            tsFieldType D flags tables f =
              Inr (''Array<'' @ pascalCase D (table_name t) @ ''Id>''))
         \<and> ((\<forall>u\<in>set tables. Some (table_id u) \<noteq> linkedTableId opts) \<longrightarrow>
            tsFieldType D flags tables f = Inr ''Array<AirtableUid>''))"
proof (intro conjI impI ballI)
  show "getZodType D tb f = Inr ''z.array(z.string())''"
    using assms by (rule zod_record_links)
next
  assume "\<not> genIds flags"
  then show "tsFieldType D flags tables f =
      getTsType D f \<lparr>useAirtableLibraryTypes = controllers flags\<rparr>"
    by (simp add: tsFieldType_def split: sum.splits)
next
  fix t
  assume h: "genIds flags \<and> options f = Some opts
      \<and> printCellFormat D ''multipleRecordLinks'' \<noteq> None"
    and t: "t \<in> set tables"
    and l: "Some (table_id t) = linkedTableId opts
      \<and> (\<forall>u\<in>set tables. table_id u = table_id t \<longrightarrow> u = t)"
  from linked_unique [OF t, of opts D] l
  have "linkedTableIdType D tables opts = pascalCase D (table_name t) @ ''Id''" by blast
  with h assms show "tsFieldType D flags tables f =
      Inr (''Array<'' @ pascalCase D (table_name t) @ ''Id>'')"
    by (auto simp: tsFieldType_def ts_record_links getTsForFieldType_def)
next
  assume h: "genIds flags \<and> options f = Some opts
      \<and> printCellFormat D ''multipleRecordLinks'' \<noteq> None"
    and l: "\<forall>u\<in>set tables. Some (table_id u) \<noteq> linkedTableId opts"
  from linked_absent [OF l]
  have "linkedTableIdType D tables opts = ''AirtableUid''" .
  with h assms show "tsFieldType D flags tables f = Inr ''Array<AirtableUid>''"
    by (auto simp: tsFieldType_def ts_record_links getTsForFieldType_def)
qed

theorem reference_field_resolution_witness:
  "tsFieldType specDeps \<lparr>controllers = False, genIds = True\<rparr> [exOrders, exCustomers] exCustomer
     = Inr ''Array<CustomersId>''
   \<and> tsFieldType specDeps \<lparr>controllers = False, genIds = True\<rparr> [exOrders, exCustomers] exSupplier
     = Inr ''Array<AirtableUid>''
   \<and> tsFieldType specDeps \<lparr>controllers = False, genIds = False\<rparr> [exOrders, exCustomers] exCustomer
     = Inr ''string[]''
   \<and> getZodType specDeps exOrders exCustomer = Inr ''z.array(z.string())''"
  using reference_field_resolution
      [of exCustomer specDeps exOrders "\<lparr>controllers = False, genIds = True\<rparr>"
          "[exOrders, exCustomers]"
          "\<lparr>precision = None, choices = None, linkedTableId = Some ''tblCustomers'',
            result = None\<rparr>"]
    reference_field_resolution
      [of exSupplier specDeps exOrders "\<lparr>controllers = False, genIds = True\<rparr>"
          "[exOrders, exCustomers]"
          "\<lparr>precision = None, choices = None, linkedTableId = Some ''tblSuppliers'',
            result = None\<rparr>"]
    reference_field_resolution
      [of exCustomer specDeps exOrders "\<lparr>controllers = False, genIds = False\<rparr>"
          "[exOrders, exCustomers]"
          "\<lparr>precision = None, choices = None, linkedTableId = Some ''tblCustomers'',
            result = None\<rparr>"]
  by (simp add: getTsType_def getTsForFieldType_def ex_defs)

text \<open>
  The Zod mapper gives a field linked to a selected table the type it gives a field linked
  to a table that is not selected.
\<close>

theorem zod_reference_counterexample:
  "getZodType specDeps exOrders exCustomer = Inr ''z.array(z.string())''
   \<and> getZodType specDeps exOrders exSupplier = Inr ''z.array(z.string())''
   \<and> Option.bind (options exCustomer) linkedTableId = Some (table_id exCustomers)
   \<and> exCustomers \<in> set [exOrders, exCustomers]"
  by (simp add: getZodType_def ex_defs)

section \<open>Selecting tables by an allow-list\<close>

text \<open>
  C6: the selection compares the number of selected tables with the number of entries of
  the allow-list instead of looking for each entry. An allow-list that names one table by
  its name and by its id is rejected although both entries resolve, and an allow-list with
  an entry that names two tables and an entry that names none is accepted.
\<close>

theorem table_selection_by_count:
  "getTableMetadata [exOrders] (Some [''Orders'', ''tblOrders'']) =
     Inl (TableSelectionMismatch
           ''Could not find all tables:\<newline>\<newline>Requested: Orders, tblOrders\<newline>Found: Orders'')
   \<and> getTableMetadata [exAlpha, exBeta] (Some [''tblA'', ''Nope'']) = Inr [exAlpha, exBeta]"
  by (simp add: getTableMetadata_def exOrders_def exAlpha_def exBeta_def)

section \<open>Shared shapes\<close>

lemma mapE_Inr_set:
  "mapE g xs = Inr ys \<Longrightarrow> y \<in> set ys \<Longrightarrow> \<exists>x\<in>set xs. g x = Inr y"
proof (induction xs arbitrary: ys)
  case Nil
  then show ?case by simp
next
  case (Cons a xs)
  from Cons.prems(1) obtain b bs where
    a: "g a = Inr b" and rest: "mapE g xs = Inr bs" and ys: "ys = b # bs"
    by (auto split: sum.splits)
  show ?case
  proof (cases "y = b")
    case True
    with a show ?thesis by simp
  next
    case False
    with Cons.prems(2) ys have "y \<in> set bs" by simp
    from Cons.IH [OF rest this] show ?thesis by auto
  qed
qed

lemma zod_shape_ends:
  "s = AttachmentZodTmpl \<or> s = CollaboratorZodTmpl \<Longrightarrow>
   hd s = CHR ''e'' \<and> last s = CHR '')'' \<and> 2 < length s"
  by (auto simp: AttachmentZodTmpl_def CollaboratorZodTmpl_def)

lemma ts_shape_starts:
  "s = getAdditionalTsForAttachments \<or> s = getAdditionalTsForCollaborators \<Longrightarrow>
   take 2 s = [CHR 0x0A, CHR '' '']"
  by (auto simp: getAdditionalTsForAttachments_def getAdditionalTsForCollaborators_def)

lemma zodEnumDecl_lines:
  assumes "zodEnumDecl D t f = Inr e" and "l \<in> set e"
  shows "\<not> (l = AttachmentZodTmpl \<or> l = CollaboratorZodTmpl)"
proof
  assume s: "l = AttachmentZodTmpl \<or> l = CollaboratorZodTmpl"
  from assms have "last l = CHR ''['' \<or> hd l = CHR '' '' \<or> length l \<le> 2"
    by (auto simp: zodEnumDecl_def split: if_splits option.splits)
  then consider "last l = CHR ''[''" | "hd l = CHR '' ''" | "length l \<le> 2"
    by blast
  then show False using zod_shape_ends [OF s] by cases simp_all
qed

lemma zodFieldLine_lines:
  assumes "zodFieldLine D t f = Inr l"
  shows "\<not> (l = AttachmentZodTmpl \<or> l = CollaboratorZodTmpl)"
proof
  assume s: "l = AttachmentZodTmpl \<or> l = CollaboratorZodTmpl"
  from assms have "hd l = CHR '' ''"
    by (auto simp: zodFieldLine_def split: sum.splits)
  with zod_shape_ends [OF s] show False by simp
qed

lemma zodTableBlock_lines:
  assumes "zodTableBlock D t = Inr b" and "l \<in> set b"
  shows "\<not> (l = AttachmentZodTmpl \<or> l = CollaboratorZodTmpl)"
proof
  assume s: "l = AttachmentZodTmpl \<or> l = CollaboratorZodTmpl"
  from assms(1) obtain enums entries where
    en: "mapE (zodEnumDecl D t) (table_fields t) = Inr enums" and
    e: "mapE (zodFieldLine D t) (table_fields t) = Inr entries" and
    b: "b = concat enums
          @ [''export const '' @ (pascalCase D (table_name t) @ ''Schema'') @ '' = z.object({'']
          @ entries
          @ [''})'',
             ''export type '' @ pascalCase D (table_name t) @ '' = z.infer<typeof ''
               @ (pascalCase D (table_name t) @ ''Schema'') @ ''>'',
             []]"
    by (auto simp: zodTableBlock_def Let_def split: sum.splits)
  from assms(2) b consider
      (enum) e' where "e' \<in> set enums" "l \<in> set e'"
    | (entry) "l \<in> set entries"
    | (head) "last l = CHR ''{''"
    | (foot) "length l \<le> 2"
    | (type) "last l = CHR ''>''"
    by auto
  then show False
  proof cases
    case enum
    from mapE_Inr_set [OF en enum(1)] obtain f where "zodEnumDecl D t f = Inr e'" by blast
    from zodEnumDecl_lines [OF this enum(2)] s show False by simp
  next
    case entry
    from mapE_Inr_set [OF e entry] obtain f where "zodFieldLine D t f = Inr l" by blast
    from zodFieldLine_lines [OF this] s show False by simp
  next
    case head
    with zod_shape_ends [OF s] show False by simp
  next
    case foot
    with zod_shape_ends [OF s] show False by simp
  next
    case type
    with zod_shape_ends [OF s] show False by simp
  qed
qed

lemma zodBlocks_lines:
  assumes "mapE (zodTableBlock D) tables = Inr blocks"
  shows "AttachmentZodTmpl \<notin> set (concat blocks) \<and> CollaboratorZodTmpl \<notin> set (concat blocks)"
proof -
  have "\<not> (l = AttachmentZodTmpl \<or> l = CollaboratorZodTmpl)" if "l \<in> set (concat blocks)" for l
  proof -
    from that obtain b where b: "b \<in> set blocks" "l \<in> set b" by auto
    from mapE_Inr_set [OF assms b(1)] obtain t where "zodTableBlock D t = Inr b" by blast
    from zodTableBlock_lines [OF this b(2)] show ?thesis .
  qed
  then show ?thesis by blast
qed

lemma zodPreamble_count:
  "count_list (zodPreamble D tables) AttachmentZodTmpl
     = (if hasAttachmentField D (allFields tables) then 1 else 0)
   \<and> count_list (zodPreamble D tables) CollaboratorZodTmpl
     = (if hasCollaboratorField D (allFields tables) then 1 else 0)"
  by (simp add: zodPreamble_def AttachmentZodTmpl_def CollaboratorZodTmpl_def quoted_def)

lemma tsFieldLine_lines:
  assumes "tsFieldLine D flags tables f = Inr l"
  shows "take 2 l = ''  ''"
  using assms by (auto simp: tsFieldLine_def split: sum.splits)

lemma tsTableBlock_lines:
  assumes "tsTableBlock D flags tables t = Inr b" and "l \<in> set b"
  shows "take 2 l \<noteq> [CHR 0x0A, CHR '' '']"
proof -
  from assms(1) obtain entries where
    e: "mapE (tsFieldLine D flags tables) (table_fields t) = Inr entries" and
    b: "b = [[], ''export type '' @ pascalCase D (table_name t) @ ''Id = AirtableUid;'', [],
             ''export interface '' @ pascalCase D (table_name t)
             @ (if controllers flags
                then '' extends FieldSetWithId<'' @ pascalCase D (table_name t) @ ''Id>''
                else [])
             @ '' {'',
             ''  _id?: '' @ pascalCase D (table_name t)
             @ ''Id; // not respected by the official Airtable Library'']
            @ entries @ [''}'', []]"
    by (auto simp: tsTableBlock_def Let_def split: sum.splits)
  from assms(2) b consider (entry) "l \<in> set entries" | (other) "take 2 l \<noteq> [CHR 0x0A, CHR '' '']"
    by auto
  then show ?thesis
  proof cases
    case entry
    from mapE_Inr_set [OF e entry] obtain f where "tsFieldLine D flags tables f = Inr l"
      by blast
    from tsFieldLine_lines [OF this] show ?thesis by simp
  next
    case other
    then show ?thesis .
  qed
qed

lemma tsBlocks_lines:
  assumes "mapE (tsTableBlock D flags tables) ts = Inr blocks"
  shows "getAdditionalTsForAttachments \<notin> set (concat blocks)
         \<and> getAdditionalTsForCollaborators \<notin> set (concat blocks)"
proof -
  have "\<not> (l = getAdditionalTsForAttachments \<or> l = getAdditionalTsForCollaborators)"
    if "l \<in> set (concat blocks)" for l
  proof
    assume s: "l = getAdditionalTsForAttachments \<or> l = getAdditionalTsForCollaborators"
    from that obtain b where b: "b \<in> set blocks" "l \<in> set b" by auto
    from mapE_Inr_set [OF assms b(1)] obtain t where "tsTableBlock D flags tables t = Inr b"
      by blast
    from tsTableBlock_lines [OF this b(2)] ts_shape_starts [OF s] show False by simp
  qed
  then show ?thesis by blast
qed

lemma tsControllers_lines:
  "getAdditionalTsForAttachments \<notin> set (tsControllers D base tables)
   \<and> getAdditionalTsForCollaborators \<notin> set (tsControllers D base tables)"
proof -
  have "\<not> (l = getAdditionalTsForAttachments \<or> l = getAdditionalTsForCollaborators)"
    if "l \<in> set (tsControllers D base tables)" for l
  proof
    assume s: "l = getAdditionalTsForAttachments \<or> l = getAdditionalTsForCollaborators"
    from that have "take 2 l \<noteq> [CHR 0x0A, CHR '' '']"
      by (auto simp: tsControllers_def Let_def TypedTableTmpl_def)
    with ts_shape_starts [OF s] show False by simp
  qed
  then show ?thesis by blast
qed

lemma tsPreamble_count:
  "count_list (tsPreamble D flags tables) getAdditionalTsForAttachments
     = (if \<not> controllers flags \<and> hasAttachmentField D (allFields tables) then 1 else 0)
   \<and> count_list (tsPreamble D flags tables) getAdditionalTsForCollaborators
     = (if \<not> controllers flags \<and> hasCollaboratorField D (allFields tables) then 1 else 0)"
  by (simp add: tsPreamble_def getAdditionalTsForAttachments_def
      getAdditionalTsForCollaborators_def quoted_def)

lemma count_list_absent: "x \<notin> set xs \<Longrightarrow> count_list xs x = 0"
  by (induction xs) auto

lemma count_list_app: "count_list (xs @ ys) x = count_list xs x + count_list ys x"
  by (induction xs) auto

text \<open>
  C5, as the code has it: the output is the preamble followed by the blocks of the tables.
  In the Zod dialect each of the two shape templates occurs once among the fragments when
  its helper holds of the fields of the selected tables and not at all otherwise, and
  never in a table block. In the TypeScript dialect the same holds when no controllers are
  generated; with controllers neither shape is emitted.
\<close>

theorem shared_shapes:
  "(zodLines D tables = Inr ls \<longrightarrow>
      (\<exists>blocks. mapE (zodTableBlock D) tables = Inr blocks
         \<and> ls = zodPreamble D tables @ concat blocks
         \<and> AttachmentZodTmpl \<notin> set (concat blocks)
         \<and> CollaboratorZodTmpl \<notin> set (concat blocks))
      \<and> count_list ls AttachmentZodTmpl
          = (if hasAttachmentField D (allFields tables) then 1 else 0)
      \<and> count_list ls CollaboratorZodTmpl
          = (if hasCollaboratorField D (allFields tables) then 1 else 0))
   \<and> (tsLines D flags base tables = Inr ls' \<longrightarrow>
      (\<exists>blocks. mapE (tsTableBlock D flags tables) tables = Inr blocks
         \<and> ls' = tsPreamble D flags tables @ concat blocks
                 @ (if controllers flags then tsControllers D base tables else [])
         \<and> getAdditionalTsForAttachments \<notin> set (concat blocks)
         \<and> getAdditionalTsForCollaborators \<notin> set (concat blocks))
      \<and> count_list ls' getAdditionalTsForAttachments
          = (if \<not> controllers flags \<and> hasAttachmentField D (allFields tables) then 1 else 0)
      \<and> count_list ls' getAdditionalTsForCollaborators
          = (if \<not> controllers flags \<and> hasCollaboratorField D (allFields tables)
             then 1 else 0))"
proof (intro conjI impI)
  assume z: "zodLines D tables = Inr ls"
  then obtain blocks where
    m: "mapE (zodTableBlock D) tables = Inr blocks" and
    ls: "ls = zodPreamble D tables @ concat blocks"
    by (auto simp: zodLines_def split: sum.splits)
  note nb = zodBlocks_lines [OF m]
  from m ls nb
  show "\<exists>blocks. mapE (zodTableBlock D) tables = Inr blocks
         \<and> ls = zodPreamble D tables @ concat blocks
         \<and> AttachmentZodTmpl \<notin> set (concat blocks)
         \<and> CollaboratorZodTmpl \<notin> set (concat blocks)"
    by blast
  from nb show "count_list ls AttachmentZodTmpl
      = (if hasAttachmentField D (allFields tables) then 1 else 0)"
    unfolding ls count_list_app using zodPreamble_count [of D tables]
    by (simp add: count_list_absent)
  from nb show "count_list ls CollaboratorZodTmpl
      = (if hasCollaboratorField D (allFields tables) then 1 else 0)"
    unfolding ls count_list_app using zodPreamble_count [of D tables]
    by (simp add: count_list_absent)
next
  assume t: "tsLines D flags base tables = Inr ls'"
  then obtain blocks where
    m: "mapE (tsTableBlock D flags tables) tables = Inr blocks" and
    ls: "ls' = tsPreamble D flags tables @ concat blocks
           @ (if controllers flags then tsControllers D base tables else [])"
    by (auto simp: tsLines_def split: sum.splits)
  note nb = tsBlocks_lines [OF m]
  note nc = tsControllers_lines [of D base tables]
  from m ls nb
  show "\<exists>blocks. mapE (tsTableBlock D flags tables) tables = Inr blocks
         \<and> ls' = tsPreamble D flags tables @ concat blocks
                 @ (if controllers flags then tsControllers D base tables else [])
         \<and> getAdditionalTsForAttachments \<notin> set (concat blocks)
         \<and> getAdditionalTsForCollaborators \<notin> set (concat blocks)"
    by blast
  from nb nc show "count_list ls' getAdditionalTsForAttachments
      = (if \<not> controllers flags \<and> hasAttachmentField D (allFields tables) then 1 else 0)"
    unfolding ls count_list_app using tsPreamble_count [of D flags tables]
    by (simp add: count_list_absent)
  from nb nc show "count_list ls' getAdditionalTsForCollaborators
      = (if \<not> controllers flags \<and> hasCollaboratorField D (allFields tables)
         then 1 else 0)"
    unfolding ls count_list_app using tsPreamble_count [of D flags tables]
    by (simp add: count_list_absent)
qed

theorem shared_shapes_witness:
  "(\<exists>ls. zodLines specDeps [exOrders, exCustomers] = Inr ls
      \<and> count_list ls AttachmentZodTmpl = 1 \<and> count_list ls CollaboratorZodTmpl = 0)
   \<and> (\<exists>ls. tsLines specDeps \<lparr>controllers = False, genIds = True\<rparr> exBase
               [exOrders, exCustomers] = Inr ls
      \<and> count_list ls getAdditionalTsForAttachments = 1
      \<and> count_list ls getAdditionalTsForCollaborators = 0)"
proof -
  from zodLines_example obtain ls where
    ls: "zodLines specDeps [exOrders, exCustomers] = Inr ls"
    by (auto split: sum.splits)
  from tsLines_example obtain ls' where
    ls': "tsLines specDeps \<lparr>controllers = False, genIds = True\<rparr> exBase
            [exOrders, exCustomers] = Inr ls'"
    by (auto split: sum.splits)
  have att: "hasAttachmentField specDeps (allFields [exOrders, exCustomers])"
    by (simp add: specDeps_def needsAttachmentShape_def allFields_def exOrders_def
        exCustomers_def exFiles_def)
  have col: "\<not> hasCollaboratorField specDeps (allFields [exOrders, exCustomers])"
    by (simp add: specDeps_def needsCollaboratorShape_def allFields_def exOrders_def
        exCustomers_def exFiles_def exNr_def exPaid_def exCustomer_def exSupplier_def)
  from shared_shapes [of specDeps "[exOrders, exCustomers]" ls
      "\<lparr>controllers = False, genIds = True\<rparr>" exBase ls'] ls ls' att col
  show ?thesis by simp
qed

text \<open>
  With controllers, a table with an attachment field is generated without the attachment
  shape.
\<close>

theorem controllers_shapes_counterexample:
  "hasAttachmentField specDeps (allFields [exCustomers])
   \<and> (case tsLines specDeps \<lparr>controllers = True, genIds = True\<rparr> exBase [exCustomers] of
        Inl e \<Rightarrow> False
      | Inr ls \<Rightarrow> count_list ls getAdditionalTsForAttachments = 0)"
  by code_simp

text \<open>
  C10: the Zod output for a table with an attachment field refers to
  \<open>AirtableAttachmentSchema\<close>, and the only shape the preamble declares is
  \<open>AirtableThumbnailSchema\<close>.
\<close>

theorem attachment_schema_output:
  "generateZodSchemas specDeps exBase [exCustomers] =
     Inr (''import { z } from 'zod'\<newline>''
          @ ''\<newline>''
          @ ''export const AirtableThumbnailSchema = z.object({\<newline>''
          @ ''  url: z.string(),\<newline>''
          @ ''  width: z.number(),\<newline>''
          @ ''  height: z.number(),\<newline>''
          @ ''})\<newline>''
          @ ''\<newline>''
          @ ''export const CustomersSchema = z.object({\<newline>''
          @ ''  'Files': z.array(AirtableAttachmentSchema).optional(),\<newline>''
          @ ''})\<newline>''
          @ ''export type Customers = z.infer<typeof CustomersSchema>\<newline>'')"
  by code_simp

section \<open>Enum names\<close>

lemma digit_inj:
  assumes "char_of (48 + a) = (char_of (48 + b) :: char)" and "a < 10" and "b < 10"
  shows "a = (b::nat)"
proof -
  from assms(1) have "of_char (char_of (48 + a) :: char) = (of_char (char_of (48 + b) :: char) :: nat)"
    by (rule arg_cong)
  then have e: "(48 + a) mod 256 = (48 + b) mod 256" by (simp only: of_char_of)
  from assms(2,3) have "48 + a < 256" "48 + b < 256" by simp_all
  then have "(48 + a) mod 256 = 48 + a" "(48 + b) mod 256 = 48 + b" by (simp_all only: mod_less)
  with e show ?thesis by simp
qed

lemma decimal_small: "n < 10 \<Longrightarrow> decimal n = [char_of (48 + n)]"
  by (subst decimal.simps) (simp only: if_True)

lemma decimal_large:
  "\<not> n < 10 \<Longrightarrow> decimal n = decimal (n div 10) @ [char_of (48 + n mod 10)]"
  by (subst decimal.simps) (simp only: if_False)

lemma decimal_nonempty: "decimal n \<noteq> []"
  by (cases "n < 10") (simp_all only: decimal_small decimal_large append_is_Nil_conv
      list.distinct not_False_eq_True simp_thms)


lemma decimal_inj: "decimal m = decimal n \<Longrightarrow> m = n"
proof (induction m arbitrary: n rule: decimal.induct)
  case (1 m)
  show ?case
  proof (cases "m < 10")
    case True
    show ?thesis
    proof (cases "n < 10")
      case n: True
      from "1.prems" have "[char_of (48 + m)] = [char_of (48 + n) :: char]"
        by (simp only: decimal_small [OF True] decimal_small [OF n])
      then have "char_of (48 + m) = (char_of (48 + n) :: char)" by (simp only: list.inject)
      from digit_inj [OF this True n] show ?thesis .
    next
      case n: False
      from "1.prems" have "length (decimal m) = length (decimal n)" by (rule arg_cong)
      then have "length (decimal (n div 10)) = 0"
        by (simp only: decimal_small [OF True] decimal_large [OF n] length_append list.size
            One_nat_def add_Suc_right add_0_right nat.inject)
      with decimal_nonempty [of "n div 10"] show ?thesis by (simp only: length_0_conv)
    qed
  next
    case False
    show ?thesis
    proof (cases "n < 10")
      case n: True
      from "1.prems" have "length (decimal m) = length (decimal n)" by (rule arg_cong)
      then have "length (decimal (m div 10)) = 0"
        by (simp only: decimal_small [OF n] decimal_large [OF False] length_append list.size
            One_nat_def add_Suc_right add_0_right nat.inject)
      with decimal_nonempty [of "m div 10"] show ?thesis by (simp only: length_0_conv)
    next
      case n: False
      from "1.prems" have
        "decimal (m div 10) @ [char_of (48 + m mod 10)]
         = decimal (n div 10) @ [char_of (48 + n mod 10)]"
        by (simp only: decimal_large [OF False] decimal_large [OF n])
      then have d: "decimal (m div 10) = decimal (n div 10)"
        and c: "char_of (48 + m mod 10) = (char_of (48 + n mod 10) :: char)"
        by (simp_all only: append1_eq_conv)
      from "1.IH" [OF False d] have q: "m div 10 = n div 10" .
      have "m mod 10 < 10" "n mod 10 < 10" by simp_all
      from digit_inj [OF c this] have r: "m mod 10 = n mod 10" .
      have "m = 10 * (m div 10) + m mod 10" "n = 10 * (n div 10) + n mod 10"
        by simp_all
      with q r show ?thesis by presburger
    qed
  qed
qed

lemma suffix_inj: "c @ decimal m = c @ decimal n \<Longrightarrow> m = n"
  using decimal_inj by simp

lemma firstFree_cases:
  "(\<exists>n. find (\<lambda>n. c @ decimal n \<notin> set avoid) [2 ..< 3 + length avoid] = Some n)"
proof (rule ccontr)
  assume "\<not> ?thesis"
  then have "find (\<lambda>n. c @ decimal n \<notin> set avoid) [2 ..< 3 + length avoid] = None" by simp
  then have all: "\<forall>n\<in>{2 ..< 3 + length avoid}. c @ decimal n \<in> set avoid"
    by (simp add: find_None_iff)
  let ?f = "\<lambda>n. c @ decimal n"
  have inj: "inj_on ?f {2 ..< 3 + length avoid}"
    by (rule inj_onI) (rule suffix_inj)
  from all have "?f ` {2 ..< 3 + length avoid} \<subseteq> set avoid" by blast
  then have "card (?f ` {2 ..< 3 + length avoid}) \<le> card (set avoid)"
    by (rule card_mono [OF finite_set])
  moreover have "card (?f ` {2 ..< 3 + length avoid}) = Suc (length avoid)"
    using card_image [OF inj] by simp
  moreover have "card (set avoid) \<le> length avoid" by (rule card_length)
  ultimately show False by simp
qed

lemma firstFree_free: "c @ decimal (firstFree c avoid) \<notin> set avoid"
proof -
  from firstFree_cases [of c avoid] obtain n where
    n: "find (\<lambda>n. c @ decimal n \<notin> set avoid) [2 ..< 3 + length avoid] = Some n" ..
  then have "c @ decimal n \<notin> set avoid" by (auto simp: find_Some_iff)
  with n show ?thesis by (simp add: firstFree_def)
qed

lemma firstFree_ge: "2 \<le> firstFree c avoid"
proof -
  from firstFree_cases [of c avoid] obtain n where
    n: "find (\<lambda>n. c @ decimal n \<notin> set avoid) [2 ..< 3 + length avoid] = Some n" ..
  then have "n \<in> set [2 ..< 3 + length avoid]" by (auto simp: find_Some_iff)
  with n show ?thesis by (simp add: firstFree_def)
qed

lemma firstFree_least:
  assumes "2 \<le> m" and "m < firstFree c avoid"
  shows "c @ decimal m \<in> set avoid"
proof -
  from firstFree_cases [of c avoid] obtain n where
    n: "find (\<lambda>n. c @ decimal n \<notin> set avoid) [2 ..< 3 + length avoid] = Some n" ..
  then obtain i where i: "i < length [2 ..< 3 + length avoid]" "[2 ..< 3 + length avoid] ! i = n"
    and before: "\<forall>j<i. \<not> c @ decimal ([2 ..< 3 + length avoid] ! j) \<notin> set avoid"
    by (auto simp: find_Some_iff)
  from n have ff: "firstFree c avoid = n" by (simp add: firstFree_def)
  from i have ni: "n = 2 + i" by simp
  from assms ff ni have "m - 2 < i" by simp
  with before have "c @ decimal ([2 ..< 3 + length avoid] ! (m - 2)) \<in> set avoid" by blast
  moreover from assms ff ni i have "[2 ..< 3 + length avoid] ! (m - 2) = m" by simp
  ultimately show ?thesis by simp
qed

lemma namesBefore_Suc:
  assumes "i < length (table_fields t)"
  shows "namesBefore norm t (Suc i) = step norm t (namesBefore norm t i) (table_fields t ! i)"
  using assms by (simp add: namesBefore_def take_Suc_conv_app_nth)

lemma enumNameAt_nth:
  assumes "i < length (table_fields t)"
  shows "enumNameAt norm t i = nameOf norm t (namesBefore norm t i) (table_fields t ! i)"
proof -
  from assms have "drop i (table_fields t) = table_fields t ! i # drop (Suc i) (table_fields t)"
    by (simp add: Cons_nth_drop_Suc)
  then show ?thesis by (simp add: enumNameAt_def)
qed

lemma seen_before:
  assumes "i \<le> length (table_fields t)"
  shows "c \<in> set (fst (namesBefore norm t i))
         \<longleftrightarrow> (\<exists>k<i. choiceField (table_fields t ! k) \<and> candidate norm t (table_fields t ! k) = c)"
  using assms
proof (induction i)
  case 0
  show ?case by (simp add: namesBefore_def)
next
  case (Suc i)
  then have i: "i < length (table_fields t)" and IH:
    "c \<in> set (fst (namesBefore norm t i))
     \<longleftrightarrow> (\<exists>k<i. choiceField (table_fields t ! k) \<and> candidate norm t (table_fields t ! k) = c)"
    by simp_all
  have "c \<in> set (fst (namesBefore norm t (Suc i)))
        \<longleftrightarrow> (choiceField (table_fields t ! i) \<and> candidate norm t (table_fields t ! i) = c)
            \<or> c \<in> set (fst (namesBefore norm t i))"
    by (auto simp: namesBefore_Suc [OF i] step_def)
  also have "\<dots> \<longleftrightarrow> (\<exists>k<Suc i. choiceField (table_fields t ! k)
                          \<and> candidate norm t (table_fields t ! k) = c)"
    unfolding IH by (auto simp: less_Suc_eq)
  finally show ?case .
qed

lemma given_before:
  assumes "i \<le> length (table_fields t)"
  shows "x \<in> set (snd (namesBefore norm t i))
         \<longleftrightarrow> (\<exists>k<i. choiceField (table_fields t ! k) \<and> enumNameAt norm t k = x)"
  using assms
proof (induction i)
  case 0
  show ?case by (simp add: namesBefore_def)
next
  case (Suc i)
  then have i: "i < length (table_fields t)" and IH:
    "x \<in> set (snd (namesBefore norm t i))
     \<longleftrightarrow> (\<exists>k<i. choiceField (table_fields t ! k) \<and> enumNameAt norm t k = x)"
    by simp_all
  have "x \<in> set (snd (namesBefore norm t (Suc i)))
        \<longleftrightarrow> (choiceField (table_fields t ! i) \<and> enumNameAt norm t i = x)
            \<or> x \<in> set (snd (namesBefore norm t i))"
    by (auto simp: namesBefore_Suc [OF i] step_def enumNameAt_nth [OF i])
  also have "\<dots> \<longleftrightarrow> (\<exists>k<Suc i. choiceField (table_fields t ! k) \<and> enumNameAt norm t k = x)"
    unfolding IH by (auto simp: less_Suc_eq)
  finally show ?case .
qed

lemma candidate_reserved:
  assumes "i < length (table_fields t)" and "choiceField (table_fields t ! i)"
  shows "candidate norm t (table_fields t ! i) \<in> set (reserved norm t)"
  using assms by (auto simp: reserved_def)

text \<open>The name of a field whose candidate has been seen, and of one whose has not.\<close>

lemma enumNameAt_seen:
  assumes "i < length (table_fields t)"
    and "\<exists>k<i. choiceField (table_fields t ! k)
               \<and> candidate norm t (table_fields t ! k) = candidate norm t (table_fields t ! i)"
  shows "enumNameAt norm t i
         = candidate norm t (table_fields t ! i)
           @ decimal (firstFree (candidate norm t (table_fields t ! i))
                        (reserved norm t @ snd (namesBefore norm t i)))"
proof -
  from assms(1) have "i \<le> length (table_fields t)" by simp
  from seen_before [OF this] assms(2)
  have "candidate norm t (table_fields t ! i) \<in> set (fst (namesBefore norm t i))" by blast
  then show ?thesis by (simp add: enumNameAt_nth [OF assms(1)] nameOf_def Let_def)
qed

lemma enumNameAt_first:
  assumes "i < length (table_fields t)"
    and "\<forall>k<i. choiceField (table_fields t ! k) \<longrightarrow>
               candidate norm t (table_fields t ! k) \<noteq> candidate norm t (table_fields t ! i)"
  shows "enumNameAt norm t i = candidate norm t (table_fields t ! i)"
proof -
  from assms(1) have "i \<le> length (table_fields t)" by simp
  from seen_before [OF this] assms(2)
  have "candidate norm t (table_fields t ! i) \<notin> set (fst (namesBefore norm t i))" by blast
  then show ?thesis by (simp add: enumNameAt_nth [OF assms(1)] nameOf_def Let_def)
qed

lemma enumNameAt_shape:
  assumes "i < length (table_fields t)"
  shows "enumNameAt norm t i = candidate norm t (table_fields t ! i)
         \<or> (\<exists>k<i. choiceField (table_fields t ! k)
                 \<and> candidate norm t (table_fields t ! k) = candidate norm t (table_fields t ! i))"
  using enumNameAt_first [OF assms] by blast

text \<open>The names given to the choice fields of a table are pairwise different.\<close>

lemma enumNameAt_unique:
  assumes "i < j" and "j < length (table_fields t)"
    and "choiceField (table_fields t ! i)" and "choiceField (table_fields t ! j)"
  shows "enumNameAt norm t i \<noteq> enumNameAt norm t j"
proof
  let ?fs = "table_fields t"
  let ?ci = "candidate norm t (?fs ! i)"
  let ?cj = "candidate norm t (?fs ! j)"
  let ?avoid = "\<lambda>k. reserved norm t @ snd (namesBefore norm t k)"
  assume eq: "enumNameAt norm t i = enumNameAt norm t j"
  from assms(1,2) have i: "i < length ?fs" and jl: "j \<le> length ?fs" by simp_all
  have gi: "enumNameAt norm t i \<in> set (snd (namesBefore norm t j))"
    using given_before [OF jl, of "enumNameAt norm t i" norm] assms(1,3) by blast
  show False
  proof (cases "\<exists>k<j. choiceField (?fs ! k) \<and> candidate norm t (?fs ! k) = ?cj")
    case True
    from enumNameAt_seen [OF assms(2) True]
    have "enumNameAt norm t j = ?cj @ decimal (firstFree ?cj (?avoid j))" .
    with firstFree_free [of ?cj "?avoid j"] have "enumNameAt norm t j \<notin> set (?avoid j)" by simp
    with gi eq show False by simp
  next
    case False
    then have first: "\<forall>k<j. choiceField (?fs ! k) \<longrightarrow> candidate norm t (?fs ! k) \<noteq> ?cj"
      by blast
    from enumNameAt_first [OF assms(2) first] have nj: "enumNameAt norm t j = ?cj" .
    from first assms(1,3) have ne: "?ci \<noteq> ?cj" by blast
    from enumNameAt_shape [OF i, of norm] show False
    proof
      assume "enumNameAt norm t i = ?ci"
      with eq nj ne show False by simp
    next
      assume seen: "\<exists>k<i. choiceField (?fs ! k) \<and> candidate norm t (?fs ! k) = ?ci"
      from enumNameAt_seen [OF i seen]
      have "enumNameAt norm t i = ?ci @ decimal (firstFree ?ci (?avoid i))" .
      with firstFree_free [of ?ci "?avoid i"] have "enumNameAt norm t i \<notin> set (reserved norm t)"
        by simp
      moreover from candidate_reserved [OF assms(2,4)] have "?cj \<in> set (reserved norm t)" .
      ultimately show False using eq nj by simp
    qed
  qed
qed

lemma given_mono:
  assumes "i \<le> j" and "j \<le> length (table_fields t)"
    and "x \<in> set (snd (namesBefore norm t i))"
  shows "x \<in> set (snd (namesBefore norm t j))"
proof -
  from assms(1,2) have "i \<le> length (table_fields t)" by simp
  from given_before [OF this] assms(3) obtain k where
    k: "k < i" "choiceField (table_fields t ! k)" "enumNameAt norm t k = x" by blast
  from k(1) assms(1) have "k < j" by simp
  with k(2,3) have "\<exists>k<j. choiceField (table_fields t ! k) \<and> enumNameAt norm t k = x"
    by blast
  with given_before [OF assms(2)] show ?thesis by blast
qed

text \<open>
  C7, on the resolver of the specification: two choice fields of a table with the same
  display name get different names; the field that is the first choice field with its
  candidate gets the candidate itself; the later of the two gets the candidate followed by
  a number from 2 on, and a larger number than the earlier one when that one is suffixed
  too.
\<close>

theorem enum_names_distinct:
  assumes "i < j" and "j < length (table_fields t)"
    and "choiceField (table_fields t ! i)" and "choiceField (table_fields t ! j)"
    and "field_name (table_fields t ! i) = field_name (table_fields t ! j)"
  shows "enumNameAt norm t i \<noteq> enumNameAt norm t j
    \<and> ((\<forall>k<i. choiceField (table_fields t ! k) \<longrightarrow>
               candidate norm t (table_fields t ! k) \<noteq> candidate norm t (table_fields t ! i))
         \<longrightarrow> enumNameAt norm t i
             = norm (table_name t) @ norm (field_name (table_fields t ! i)))
    \<and> (\<exists>n\<ge>2. enumNameAt norm t j
                 = norm (table_name t) @ norm (field_name (table_fields t ! j)) @ decimal n
          \<and> (enumNameAt norm t i
                = norm (table_name t) @ norm (field_name (table_fields t ! i))
              \<or> (\<exists>m\<ge>2. m < n
                    \<and> enumNameAt norm t i
                        = norm (table_name t) @ norm (field_name (table_fields t ! i))
                          @ decimal m)))"
proof -
  let ?fs = "table_fields t"
  let ?c = "candidate norm t (?fs ! i)"
  let ?avoid = "\<lambda>k. reserved norm t @ snd (namesBefore norm t k)"
  let ?ni = "firstFree ?c (?avoid i)"
  let ?nj = "firstFree ?c (?avoid j)"
  from assms(1,2) have i: "i < length ?fs" and jl: "j \<le> length ?fs" by simp_all
  from assms(5) have cj: "candidate norm t (?fs ! j) = ?c" by (simp add: candidate_def)
  have c: "?c = norm (table_name t) @ norm (field_name (?fs ! i))" by (simp add: candidate_def)
  have differ: "enumNameAt norm t i \<noteq> enumNameAt norm t j"
    using assms(1-4) by (rule enumNameAt_unique)
  have first: "enumNameAt norm t i = norm (table_name t) @ norm (field_name (?fs ! i))"
    if "\<forall>k<i. choiceField (?fs ! k) \<longrightarrow> candidate norm t (?fs ! k) \<noteq> ?c"
    using enumNameAt_first [OF i that] c by simp
  have "\<exists>k<j. choiceField (?fs ! k) \<and> candidate norm t (?fs ! k) = candidate norm t (?fs ! j)"
    using assms(1,3) cj by auto
  from enumNameAt_seen [OF assms(2) this] have nj: "enumNameAt norm t j = ?c @ decimal ?nj"
    by (simp only: cj)
  have order: "?ni < ?nj"
    if seen: "\<exists>k<i. choiceField (?fs ! k) \<and> candidate norm t (?fs ! k) = ?c"
  proof (rule ccontr)
    assume "\<not> ?ni < ?nj"
    then consider "?nj = ?ni" | "?nj < ?ni" by linarith
    then show False
    proof cases
      case 1
      from enumNameAt_seen [OF i seen] have "enumNameAt norm t i = ?c @ decimal ?ni" .
      with nj 1 differ show False by simp
    next
      case 2
      from firstFree_least [OF firstFree_ge 2] have "?c @ decimal ?nj \<in> set (?avoid i)" .
      then have "?c @ decimal ?nj \<in> set (?avoid j)"
        using given_mono [OF less_imp_le [OF assms(1)] jl, of "?c @ decimal ?nj" norm] by auto
      with firstFree_free [of ?c "?avoid j"] show False by simp
    qed
  qed
  have later: "\<exists>n\<ge>2. enumNameAt norm t j
                 = norm (table_name t) @ norm (field_name (?fs ! j)) @ decimal n
          \<and> (enumNameAt norm t i = norm (table_name t) @ norm (field_name (?fs ! i))
              \<or> (\<exists>m\<ge>2. m < n
                    \<and> enumNameAt norm t i
                        = norm (table_name t) @ norm (field_name (?fs ! i)) @ decimal m))"
  proof (intro exI [of _ ?nj] conjI)
    show "2 \<le> ?nj" by (rule firstFree_ge)
    from nj c assms(5) show "enumNameAt norm t j
        = norm (table_name t) @ norm (field_name (?fs ! j)) @ decimal ?nj"
      by simp
    from enumNameAt_shape [OF i, of norm]
    show "enumNameAt norm t i = norm (table_name t) @ norm (field_name (?fs ! i))
        \<or> (\<exists>m\<ge>2. m < ?nj
              \<and> enumNameAt norm t i
                  = norm (table_name t) @ norm (field_name (?fs ! i)) @ decimal m)"
    proof
      assume "enumNameAt norm t i = ?c"
      with c show ?thesis by simp
    next
      assume seen: "\<exists>k<i. choiceField (?fs ! k) \<and> candidate norm t (?fs ! k) = ?c"
      from enumNameAt_seen [OF i seen] c
      have "enumNameAt norm t i
          = norm (table_name t) @ norm (field_name (?fs ! i)) @ decimal ?ni"
        by simp
      moreover have "2 \<le> ?ni" by (rule firstFree_ge)
      moreover note order [OF seen]
      ultimately show ?thesis by blast
    qed
  qed
  from differ first later show ?thesis by blast
qed

text \<open>
  The helper with the signature of the source agrees with the resolver when the fields of
  the table are pairwise different records.
\<close>

lemma enumName_at:
  assumes "distinct (table_fields t)" and "i < length (table_fields t)"
  shows "enumName norm t (table_fields t ! i) = enumNameAt norm t i"
proof -
  have "takeWhile (\<lambda>g. g \<noteq> table_fields t ! i) (table_fields t) = take i (table_fields t)"
  proof (rule takeWhile_eq_take_P_nth)
    fix k assume "k < i" "k < length (table_fields t)"
    with assms show "table_fields t ! k \<noteq> table_fields t ! i"
      by (simp add: nth_eq_iff_index_eq)
  next
    show "\<not> table_fields t ! i \<noteq> table_fields t ! i" by simp
  qed
  with assms(2) show ?thesis by (simp add: enumName_def)
qed

lemma exTickets_names:
  "enumNameAt (\<lambda>s. s) exTickets 1 = ''TicketsStatus''"
  "enumNameAt (\<lambda>s. s) exTickets 2 = ''TicketsStatus3''"
  "enumNameAt (\<lambda>s. s) exTickets 3 = ''TicketsStatus2''"
  by code_simp+

theorem enum_names_distinct_witness:
  "enumNameAt (\<lambda>s. s) exTickets 1 \<noteq> enumNameAt (\<lambda>s. s) exTickets 2
   \<and> enumNameAt (\<lambda>s. s) exTickets 1 = ''TicketsStatus''
   \<and> enumNameAt (\<lambda>s. s) exTickets 2 = ''TicketsStatus3''"
proof -
  have l: "(1::nat) < 2" "2 < length (table_fields exTickets)"
    by (simp_all add: exTickets_def)
  have c: "choiceField (table_fields exTickets ! 1)" "choiceField (table_fields exTickets ! 2)"
    by (simp_all add: exTickets_def choiceField_def exStatus_def)
  have n: "field_name (table_fields exTickets ! 1) = field_name (table_fields exTickets ! 2)"
    by (simp add: exTickets_def)
  have first: "\<forall>k<1. choiceField (table_fields exTickets ! k) \<longrightarrow>
      candidate (\<lambda>s. s) exTickets (table_fields exTickets ! k)
      \<noteq> candidate (\<lambda>s. s) exTickets (table_fields exTickets ! 1)"
    by (simp add: exTickets_def choiceField_def exStatusText_def)
  note T = enum_names_distinct [OF l c n, of "\<lambda>s. s"]
  from T have d: "enumNameAt (\<lambda>s. s) exTickets 1 \<noteq> enumNameAt (\<lambda>s. s) exTickets 2"
    by (rule conjunct1)
  from T [THEN conjunct2, THEN conjunct1] first
  have "enumNameAt (\<lambda>s. s) exTickets 1
      = table_name exTickets @ field_name (table_fields exTickets ! 1)"
    by (rule mp)
  then have "enumNameAt (\<lambda>s. s) exTickets 1 = ''TicketsStatus''"
    by (simp add: exTickets_def exStatus_def)
  with d exTickets_names(2) show ?thesis by simp
qed

end
